theory Spec2Isabelle
  imports Complex_Main "HOL-Library.Multiset"
begin

section \<open>Conventions of the embedding\<close>

text \<open>
  The repository is Python over numpy and pandas. Python \<open>int\<close> is \<open>int\<close>. A finite
  Python or numpy float is embedded as an exact rational (\<open>rat\<close>), or as a \<open>real\<close> where
  a square root is taken; the rounding error of binary floating point is not
  represented. A raised exception is \<open>Inl\<close> of the sum type \<open>error + 'a\<close>.
\<close>

datatype error =
    ZeroDivisionError
  | ArithmeticError      \<comment> \<open>base class of ZeroDivisionError and OverflowError\<close>
  | KeyError
  | ValueError
  | IndexError
  | UnboundLocalError
  | NonFinite            \<comment> \<open>not an exception: numpy goes on with inf or nan, which
                             the embedding does not follow\<close>

text \<open>\<open>int(x)\<close> of a float truncates toward zero.\<close>

definition py_int :: "rat \<Rightarrow> int" where
  "py_int x = (if 0 \<le> x then \<lfloor>x\<rfloor> else \<lceil>x\<rceil>)"

section \<open>cf\_strategy.py: the quantity ladder\<close>

text \<open>
  Lines 131--136 of \<open>create_sell_orders\<close>, repeated as lines 164--169 of
  \<open>create_buy_orders\<close>:
  \<^verbatim>\<open>
  MAX_NUMBER_ORDERS = int(min(20, number_shares))
  quantities = [2*x for x in range(1, MAX_NUMBER_ORDERS)]
  scale = float(number_shares) / float(sum(quantities))
  quantities = [int(scale*q) for q in quantities if int(scale*q) != 0]
  \<close>
  \<open>number_shares\<close> is an \<open>int\<close> on the buy path and the position's \<open>longQuantity\<close> on
  the sell path, hence a rational here. The division of two Python floats raises
  \<open>ZeroDivisionError\<close> when the divisor is zero.
\<close>

definition weights :: "rat \<Rightarrow> int list" where
  "weights number_shares =
     (let MAX_NUMBER_ORDERS = py_int (min 20 number_shares)
      in map (\<lambda>x. 2 * x) [1..MAX_NUMBER_ORDERS - 1])"

definition ladder_quantities :: "rat \<Rightarrow> error + int list" where
  "ladder_quantities number_shares =
     (let quantities = weights number_shares in
      if sum_list quantities = 0 then Inl ZeroDivisionError
      else
        let scale = number_shares / of_int (sum_list quantities)
        in Inr (map (\<lambda>q. py_int (scale * of_int q))
                  (filter (\<lambda>q. py_int (scale * of_int q) \<noteq> 0) quantities)))"

section \<open>cf\_strategy.py: saved orders\<close>

text \<open>
  \<open>create_saved_order(symbol, price, quantity, instruction)\<close> of the brokerage client
  is recorded as the order it is called with. The ask price of the symbol and the mean
  and standard deviation of its daily \<open>high - open_price\<close> are read from the
  collaborators (the quote service, pandas on the bar history); they are parameters.
\<close>

record saved_order =
  so_symbol :: string
  so_price :: rat
  so_quantity :: int
  so_instruction :: string

record quote_stats =
  askPrice :: rat
  avg :: rat
  std :: rat

text \<open>\<open>np.linspace(start, stop, num)\<close>: \<open>num\<close> evenly spaced values, both ends included.\<close>

definition linspace :: "rat \<Rightarrow> rat \<Rightarrow> nat \<Rightarrow> rat list" where
  "linspace start stop num =
     (if num = 1 then [start]
      else map (\<lambda>i. start + of_nat i * ((stop - start) / of_nat (num - 1))) [0..<num])"

definition create_sell_orders :: "quote_stats \<Rightarrow> string \<Rightarrow> rat \<Rightarrow> error + saved_order list" where
  "create_sell_orders st symbol number_shares =
     (case ladder_quantities number_shares of
        Inl e \<Rightarrow> Inl e
      | Inr quantities \<Rightarrow>
          let current_price = askPrice st;
              lower_price = current_price + (1 / 10) * avg st;
              upper_price = current_price + (avg st + 2 * std st);
              prices = linspace lower_price upper_price (length quantities)
          in Inr (map (\<lambda>(price, quantity).
                         \<lparr>so_symbol = symbol, so_price = price, so_quantity = quantity,
                          so_instruction = ''SELL''\<rparr>)
                      (zip prices quantities)))"

definition create_buy_orders :: "quote_stats \<Rightarrow> string \<Rightarrow> rat \<Rightarrow> error + saved_order list" where
  "create_buy_orders st symbol number_shares =
     (case ladder_quantities number_shares of
        Inl e \<Rightarrow> Inl e
      | Inr quantities \<Rightarrow>
          let current_price = askPrice st;
              upper_price = current_price - (1 / 10) * avg st;
              lower_price = current_price - (avg st + 2 * std st);
              prices = linspace upper_price lower_price (length quantities)
          in Inr (map (\<lambda>(price, quantity).
                         \<lparr>so_symbol = symbol, so_price = price, so_quantity = quantity,
                          so_instruction = ''BUY''\<rparr>)
                      (zip prices quantities)))"

section \<open>cf\_strategy.py: the sell strategy\<close>

text \<open>
  \<open>run_sell_strategy\<close> keeps the rows of \<open>etf_positions\<close> whose
  \<open>currentDayProfitLossPercentage\<close> is above \<open>.01\<close> and calls \<open>create_sell_orders\<close> on
  each in turn. The orders saved so far are the state of the loop; an exception ends
  the loop and leaves them in place, so the result is the list of saved orders together
  with the exception, if any.
\<close>

record position =
  name :: string                               \<comment> \<open>the row label \<open>asset.name\<close>: the ticker\<close>
  currentDayProfitLossPercentage :: rat
  longQuantity :: rat

fun sell_loop ::
  "(string \<Rightarrow> quote_stats) \<Rightarrow> position list \<Rightarrow> saved_order list
     \<Rightarrow> saved_order list \<times> error option" where
  "sell_loop market [] saved = (saved, None)"
| "sell_loop market (asset # rest) saved =
     (case create_sell_orders (market (name asset)) (name asset) (longQuantity asset) of
        Inl e \<Rightarrow> (saved, Some e)
      | Inr new \<Rightarrow> sell_loop market rest (saved @ new))"

definition run_sell_strategy ::
  "(string \<Rightarrow> quote_stats) \<Rightarrow> position list \<Rightarrow> saved_order list \<times> error option" where
  "run_sell_strategy market etf_positions =
     (let sells = filter (\<lambda>p. 1 / 100 < currentDayProfitLossPercentage p) etf_positions
      in sell_loop market sells [])"

section \<open>orders.py\<close>

text \<open>
  One bar of the price history: the columns \<open>open_price\<close>, \<open>high\<close>, \<open>low\<close> and
  \<open>close_price\<close> of one symbol on one date.
\<close>

record bar =
  open_price :: rat
  high :: rat
  low :: rat
  close_price :: rat

text \<open>
  \<open>round(x, 2)\<close>: rounding to two decimals, a tie going to the even neighbour as in
  Python 3. On binary floats a tie is rare (\<open>2.675\<close> is stored slightly below and rounds
  to \<open>2.67\<close>); on the exact rationals of the embedding it is decided here.
\<close>

definition round_half_even :: "rat \<Rightarrow> int" where
  "round_half_even x =
     (let f = \<lfloor>x\<rfloor>; d = x - of_int f
      in if d < 1 / 2 then f
         else if 1 / 2 < d then f + 1
         else if even f then f else f + 1)"

definition round2 :: "rat \<Rightarrow> rat" where
  "round2 x = of_int (round_half_even (x * 100)) / 100"

text \<open>
  \<open>Series.quantile(q)\<close> of pandas with its default \<open>interpolation='linear'\<close>: on the
  sorted sample \<open>s\<close> of length \<open>n\<close>, the position is \<open>h = (n - 1) * q\<close> and the result is
  interpolated between the order statistics around \<open>h\<close>. A \<open>q\<close> outside \<open>[0, 1]\<close> raises
  \<open>ValueError\<close>; the quantile of an empty sample is \<open>nan\<close>, here \<open>None\<close>.
\<close>

definition interpolate :: "rat list \<Rightarrow> rat \<Rightarrow> rat" where
  "interpolate s q =
     (let h = of_nat (length s - 1) * q;
          i = nat \<lfloor>h\<rfloor>;
          j = min (i + 1) (length s - 1)
      in s ! i + (h - of_int \<lfloor>h\<rfloor>) * (s ! j - s ! i))"

definition quantile :: "rat list \<Rightarrow> rat \<Rightarrow> error + rat option" where
  "quantile xs q =
     (if q < 0 \<or> 1 < q then Inl ValueError
      else if xs = [] then Inr None
      else Inr (Some (interpolate (sort xs) q)))"

text \<open>\<open>.iloc[-n:]\<close>: the last \<open>n\<close> rows, or all of them when there are fewer.\<close>

definition iloc_last :: "nat \<Rightarrow> 'a list \<Rightarrow> 'a list" where
  "iloc_last n xs = drop (length xs - n) xs"

text \<open>
  The dictionaries returned by \<open>smart_bracket\<close> and \<open>auto_pegged\<close>; the field \<open>o_k\<close> is
  the key \<open>'k'\<close>. A price that may be \<open>nan\<close> is an option.
\<close>

record order_base =
  o_symbol :: string
  o_instruction :: string
  o_quantity :: int
  o_tif :: string
  o_outside_rth :: bool

record bracket_order = order_base +
  o_price :: "rat option"
  o_profit_price :: "rat option"
  o_stop_price :: "rat option"

definition bind_err :: "error + 'a \<Rightarrow> ('a \<Rightarrow> error + 'b) \<Rightarrow> error + 'b" where
  "bind_err r f = (case r of Inl e \<Rightarrow> Inl e | Inr x \<Rightarrow> f x)"

text \<open>Float addition and subtraction where an operand may be \<open>nan\<close>.\<close>

definition nan_add :: "rat option \<Rightarrow> rat option \<Rightarrow> rat option" where
  "nan_add a b = (case (a, b) of (Some x, Some y) \<Rightarrow> Some (x + y) | _ \<Rightarrow> None)"

definition nan_sub :: "rat option \<Rightarrow> rat option \<Rightarrow> rat option" where
  "nan_sub a b = (case (a, b) of (Some x, Some y) \<Rightarrow> Some (x - y) | _ \<Rightarrow> None)"

text \<open>
  Lines 80--90 of \<open>smart_bracket\<close>: the three series of the window and the branch on
  the instruction. With an instruction other than \<open>"BUY"\<close> and \<open>"SELL"\<close> neither
  \<open>limit_price\<close> nor \<open>profit_price\<close> is bound (the result \<open>None\<close>), and the
  \<open>return\<close> raises \<open>UnboundLocalError\<close>.
\<close>

definition bracket_prices ::
  "string \<Rightarrow> rat \<Rightarrow> rat \<Rightarrow> rat \<Rightarrow> bar list
     \<Rightarrow> error + (rat option \<times> rat option) option" where
  "bracket_prices instruction quote limit_prob profit_prob prices =
     (let low' = map (\<lambda>b. open_price b - low b) prices;
          high' = map (\<lambda>b. high b - open_price b) prices;
          hilo = map (\<lambda>b. high b - low b) prices
      in if instruction = ''BUY'' then
           bind_err (quantile low' (1 - limit_prob)) (\<lambda>ql.
           let limit_price = nan_sub (Some quote) ql in
           bind_err (quantile hilo (1 - profit_prob)) (\<lambda>qh.
           Inr (Some (limit_price, nan_add limit_price qh))))
         else if instruction = ''SELL'' then
           bind_err (quantile high' (1 - limit_prob)) (\<lambda>ql.
           let limit_price = nan_add (Some quote) ql in
           bind_err (quantile hilo (1 - profit_prob)) (\<lambda>qh.
           Inr (Some (limit_price, nan_sub limit_price qh))))
         else Inr None)"

text \<open>
  \<open>smart_bracket\<close>. \<open>bars[symbol]\<close> and \<open>quotes[symbol]\<close> raise \<open>KeyError\<close> on a missing
  symbol. The parameter \<open>quantity\<close> is overwritten by \<open>int(amount / quote)\<close> before it
  is read. With a zero quote the division is \<open>inf\<close> and \<open>int\<close> raises \<open>OverflowError\<close>
  (\<open>ZeroDivisionError\<close> for a Python float quote), both \<open>ArithmeticError\<close>.
\<close>

definition smart_bracket ::
  "string \<Rightarrow> string \<Rightarrow> int \<Rightarrow> rat \<Rightarrow> rat \<Rightarrow> rat
     \<Rightarrow> (string \<rightharpoonup> bar list) \<Rightarrow> (string \<rightharpoonup> rat) \<Rightarrow> error + bracket_order" where
  "smart_bracket symbol instruction quantity amount limit_prob profit_prob bars quotes =
     (let n_days = 50 in
      case bars symbol of
        None \<Rightarrow> Inl KeyError
      | Some history \<Rightarrow>
          let prices = iloc_last n_days history in
          (case quotes symbol of
             None \<Rightarrow> Inl KeyError
           | Some quote \<Rightarrow>
               bind_err (bracket_prices instruction quote limit_prob profit_prob prices)
                 (\<lambda>bound.
                    if quote = 0 then Inl ArithmeticError
                    else
                      let quantity = py_int (amount / quote) in
                      (case bound of
                         None \<Rightarrow> Inl UnboundLocalError
                       | Some (limit_price, profit_price) \<Rightarrow>
                           Inr \<lparr>o_symbol = symbol, o_instruction = instruction,
                                o_quantity = quantity, o_tif = ''DAY'',
                                o_outside_rth = True,
                                o_price = map_option round2 limit_price,
                                o_profit_price = map_option round2 profit_price,
                                o_stop_price = None\<rparr>))))"



text \<open>A two-bar history used for the examples.\<close>

definition demo_bars :: "bar list" where
  "demo_bars = [\<lparr>open_price = 10, high = 12, low = 9, close_price = 11\<rparr>,
                \<lparr>open_price = 11, high = 23 / 2, low = 41 / 4, close_price = 11\<rparr>]"

section \<open>price\_calcs.py: calc\_differentials\<close>

text \<open>
  The price table \<open>bars\<close> is a data frame with one row per date, oldest first, and four
  columns per symbol. It is embedded as the list of its rows: the date and, in the
  order of the columns, one bar per symbol. Selecting a price type
  (\<open>bars.loc[:, (slice(None), "open_price")]\<close>) projects that field out of every bar and
  \<open>.values\<close> is the matrix of the selection.
\<close>

type_synonym price_table = "(string \<times> bar list) list"

definition column_values :: "(bar \<Rightarrow> rat) \<Rightarrow> price_table \<Rightarrow> rat list list" where
  "column_values price_type bars = map (\<lambda>(date, row). map price_type row) bars"

text \<open>
  numpy arithmetic on two arrays of the same shape acts entry by entry. A float division
  by zero gives \<open>inf\<close> or \<open>nan\<close> and a warning, no exception: no finite value, \<open>None\<close>.
\<close>

definition elementwise :: "('a \<Rightarrow> 'b \<Rightarrow> 'c) \<Rightarrow> 'a list list \<Rightarrow> 'b list list \<Rightarrow> 'c list list" where
  "elementwise f A B = map2 (map2 f) A B"

definition np_div :: "rat \<Rightarrow> rat \<Rightarrow> rat option" where
  "np_div x y = (if y = 0 then None else Some (x / y))"

text \<open>
  One row of the result per date and symbol: the columns \<open>cc\<close>, \<open>co\<close>, \<open>oc\<close>, \<open>high\<close> and
  \<open>low\<close> (here \<open>high_rel\<close> and \<open>low_rel\<close>, the names \<open>high\<close> and \<open>low\<close> being those of the
  bar).
\<close>

record differential =
  cc :: "rat option"
  co :: "rat option"
  oc :: "rat option"
  high_rel :: "rat option"
  low_rel :: "rat option"

definition calc_differentials :: "price_table \<Rightarrow> (string \<times> differential list) list" where
  "calc_differentials bars =
     (let open_price' = column_values open_price (tl bars);
          close_price' = column_values close_price (tl bars);
          high' = column_values high (tl bars);
          low' = column_values low (tl bars);
          previous_close_price = column_values close_price (butlast bars);
          cc = elementwise np_div (elementwise (-) close_price' previous_close_price)
                 previous_close_price;
          co = elementwise np_div (elementwise (-) open_price' previous_close_price)
                 previous_close_price;
          oc = elementwise np_div (elementwise (-) close_price' open_price') open_price';
          high'' = elementwise np_div (elementwise (-) high' open_price') open_price';
          low'' = elementwise np_div (elementwise (-) low' open_price') open_price';
          index = map fst (tl bars)
      in map (\<lambda>(date, cc, co, oc, high, low).
                (date, map (\<lambda>(cc, co, oc, high, low).
                              \<lparr>cc = cc, co = co, oc = oc, high_rel = high, low_rel = low\<rparr>)
                         (zip cc (zip co (zip oc (zip high low))))))
             (zip index (zip cc (zip co (zip oc (zip high'' low''))))))"

text \<open>The example of two dates and one symbol: closes 100 and 110, opens 100 and 105.\<close>

definition demo_table :: price_table where
  "demo_table =
     [(''d0'', [\<lparr>open_price = 100, high = 101, low = 99, close_price = 100\<rparr>]),
      (''d1'', [\<lparr>open_price = 105, high = 112, low = 104, close_price = 110\<rparr>])]"

section \<open>price\_calcs.py: scaled\_price\_change\<close>

text \<open>
  Every pandas operation of this function acts on each column of \<open>prices\<close> by itself;
  the embedding is the computation on one column, a price series with the oldest price
  first.

  \<open>prices.pct_change().iloc[1:]\<close>: the relative change \<open>current / previous - 1\<close> between
  consecutive prices, without the undefined first entry. A zero previous price gives
  \<open>inf\<close> or \<open>nan\<close>, which the embedding does not follow.
\<close>

definition pct_change :: "rat list \<Rightarrow> error + rat list" where
  "pct_change prices =
     (if 0 \<in> set (butlast prices) then Inl NonFinite
      else Inr (map2 (\<lambda>previous current. current / previous - 1) (butlast prices) (tl prices)))"

text \<open>\<open>.mean()\<close> of a series without \<open>nan\<close>; the mean of an empty series is \<open>nan\<close>.\<close>

definition mean :: "rat list \<Rightarrow> rat option" where
  "mean xs = (if xs = [] then None else Some (sum_list xs / of_nat (length xs)))"

text \<open>
  \<open>.rolling(window).sum()\<close>: at each position the sum of the \<open>window\<close> entries ending
  there, and \<open>nan\<close> at the first \<open>window - 1\<close> positions. \<open>.mean()\<close> of the result skips
  the \<open>nan\<close> entries.
\<close>

definition rolling_sum :: "nat \<Rightarrow> rat list \<Rightarrow> rat option list" where
  "rolling_sum window xs =
     map (\<lambda>k. if k + 1 < window then None
              else Some (sum_list (take window (drop (k + 1 - window) xs))))
         [0..<length xs]"

definition mean_skipna :: "rat option list \<Rightarrow> rat option" where
  "mean_skipna xs = mean (map the (filter (\<lambda>x. x \<noteq> None) xs))"

text \<open>\<open>frame.loc[i] = v\<close> on a frame that has the label \<open>i\<close>.\<close>

definition loc_set :: "nat \<Rightarrow> 'a \<Rightarrow> (nat \<times> 'a) list \<Rightarrow> (nat \<times> 'a) list" where
  "loc_set i v frame = map (\<lambda>(k, x). if k = i then (k, v) else (k, x)) frame"

text \<open>
  The result frame has the labels \<open>range(1, max_window_length)\<close> and starts as \<open>nan\<close>.
  The loop assigns row \<open>i\<close> twice, the second assignment replacing the first. The
  source also binds \<open>std\<close>, the standard deviation of the rolling sums, and never reads
  it; that line has no effect and is left out.
\<close>

definition scaled_price_change :: "rat list \<Rightarrow> error + (nat \<times> rat option) list" where
  "scaled_price_change prices =
     bind_err (pct_change prices) (\<lambda>changes.
       let dP = rev changes;
           max_window_length = length prices div 4;
           scaled_dP = map (\<lambda>i. (i, None)) [1..<max_window_length]
       in Inr (fold (\<lambda>i scaled_dP.
                  let avg = mean_skipna (rolling_sum i dP);
                      scaled_dP = loc_set i (nan_sub (mean (take i dP)) avg) scaled_dP
                  in loc_set i (mean (take i dP)) scaled_dP)
               [1..<max_window_length] scaled_dP))"

text \<open>A series of thirteen prices used for the examples.\<close>

definition demo_prices :: "rat list" where
  "demo_prices = [1, 2, 4, 8, 16, 8, 4, 2, 1, 3, 9, 27, 9]"

section \<open>cf\_strategy.py: the buy strategy\<close>

text \<open>
  \<open>_estimate_30_day_return\<close> works on the close prices of the buy candidates, one column
  per ticker; \<open>P\<close> is the list of these columns. For each column \<open>avg_60\<close> is the mean
  of its rolling sums over 60 returns, \<open>nan\<close> with fewer than 60 returns, and \<open>last_30\<close>
  is the sum of its last 30 returns.
\<close>

fun map_err :: "('a \<Rightarrow> error + 'b) \<Rightarrow> 'a list \<Rightarrow> error + 'b list" where
  "map_err f [] = Inr []"
| "map_err f (x # xs) =
     bind_err (f x) (\<lambda>y. bind_err (map_err f xs) (\<lambda>ys. Inr (y # ys)))"

definition score :: "rat list \<Rightarrow> error + rat option" where
  "score closes =
     bind_err (pct_change closes) (\<lambda>dP.
       let avg_60 = mean_skipna (rolling_sum 60 dP);
           last_30 = sum_list (iloc_last 30 dP)
       in Inr (nan_sub avg_60 (Some last_30)))"

definition estimate_30_day_return ::
  "(string \<times> rat list) list \<Rightarrow> error + (string \<times> rat option) list" where
  "estimate_30_day_return P =
     map_err (\<lambda>(ticker, closes). bind_err (score closes) (\<lambda>v. Inr (ticker, v))) P"

text \<open>
  \<open>sort_values(ascending=False)\<close>: the largest score first and \<open>nan\<close> last. pandas fixes
  no order among equal scores; the insertion sort below keeps their order.
\<close>

definition ranks_before :: "rat option \<Rightarrow> rat option \<Rightarrow> bool" where
  "ranks_before a b =
     (case (a, b) of
        (Some x, Some y) \<Rightarrow> y \<le> x
      | (Some x, None) \<Rightarrow> True
      | (None, Some y) \<Rightarrow> False
      | (None, None) \<Rightarrow> True)"

fun insert_ranked ::
  "string \<times> rat option \<Rightarrow> (string \<times> rat option) list \<Rightarrow> (string \<times> rat option) list" where
  "insert_ranked x [] = [x]"
| "insert_ranked x (y # ys) =
     (if ranks_before (snd x) (snd y) then x # y # ys else y # insert_ranked x ys)"

definition sort_values_descending ::
  "(string \<times> rat option) list \<Rightarrow> (string \<times> rat option) list" where
  "sort_values_descending xs = foldr insert_ranked xs []"

definition buy_ranking ::
  "(string \<times> rat list) list \<Rightarrow> error + (string \<times> rat option) list" where
  "buy_ranking P =
     bind_err (estimate_30_day_return P) (\<lambda>scores. Inr (sort_values_descending scores))"

text \<open>
  \<open>buy_ranking[[0, 10]]\<close>: the ranking is labelled by ticker, so a list of integers
  selects by position, here the entries at positions \<open>0\<close> and \<open>10\<close>; a position past the
  end raises \<open>IndexError\<close>.
\<close>

definition take_positions :: "nat list \<Rightarrow> 'a list \<Rightarrow> error + 'a list" where
  "take_positions ps xs =
     (if \<forall>p \<in> set ps. p < length xs then Inr (map (\<lambda>p. xs ! p) ps) else Inl IndexError)"

text \<open>
  The pairs \<open>orders\<close> of \<open>run_buy_strategy\<close> (lines 206--210). The last prices come from
  the quote service, a parameter; a zero price makes \<open>int(500./q)\<close> raise.
\<close>

definition buy_orders ::
  "(string \<Rightarrow> rat) \<Rightarrow> (string \<times> rat list) list \<Rightarrow> error + (string \<times> int) list" where
  "buy_orders regularMarketLastPrice P =
     bind_err (buy_ranking P) (\<lambda>buy_ranking.
     bind_err (take_positions [0, 10] buy_ranking) (\<lambda>selected.
       let tickers = map fst selected;
           quotes = map regularMarketLastPrice tickers
       in if 0 \<in> set quotes then Inl ArithmeticError
          else
            let number_shares = map (\<lambda>q. py_int (500 / q)) quotes
            in Inr (zip tickers number_shares)))"

fun buy_loop ::
  "(string \<Rightarrow> quote_stats) \<Rightarrow> (string \<times> int) list \<Rightarrow> saved_order list
     \<Rightarrow> saved_order list \<times> error option" where
  "buy_loop market [] saved = (saved, None)"
| "buy_loop market (row # rest) saved =
     (case create_buy_orders (market (fst row)) (fst row) (of_int (snd row)) of
        Inl e \<Rightarrow> (saved, Some e)
      | Inr new \<Rightarrow> buy_loop market rest (saved @ new))"

definition run_buy_strategy ::
  "(string \<Rightarrow> rat) \<Rightarrow> (string \<Rightarrow> quote_stats) \<Rightarrow> (string \<times> rat list) list
     \<Rightarrow> saved_order list \<times> error option" where
  "run_buy_strategy regularMarketLastPrice market P =
     (case buy_orders regularMarketLastPrice P of
        Inl e \<Rightarrow> ([], Some e)
      | Inr orders \<Rightarrow> buy_loop market orders [])"

text \<open>
  The claim about the buy strategy speaks of the candidates at ranking positions 0
  through 10 and of a 60-period trailing mean of the rolling sums. The next two
  definitions follow these words of the claim, not the source, and serve only to compare
  the two.
\<close>

definition claimed_top_slice :: "'a list \<Rightarrow> 'a list" where
  "claimed_top_slice ranking = take 11 ranking"

definition claimed_trailing_mean :: "rat option list \<Rightarrow> rat option" where
  "claimed_trailing_mean window_sums =
     mean (iloc_last 60 (map the (filter (\<lambda>x. x \<noteq> None) window_sums)))"

text \<open>
  Eleven candidates for the examples: the close of candidate \<open>k\<close> goes from \<open>1\<close> to
  \<open>1 + k\<close> on the first day and stays there for sixty days. And one series of 121
  closes that doubles on the first day.
\<close>

definition demo_candidates :: "(string \<times> rat list) list" where
  "demo_candidates =
     map (\<lambda>(ticker, k). (ticker, 1 # replicate 60 (1 + k)))
       [(''K00'', 0), (''K01'', 1), (''K02'', 2), (''K03'', 3), (''K04'', 4), (''K05'', 5),
        (''K06'', 6), (''K07'', 7), (''K08'', 8), (''K09'', 9), (''K10'', 10)]"

definition demo_ranking :: "(string \<times> rat option) list" where
  "demo_ranking =
     [(''K10'', Some 10), (''K09'', Some 9), (''K08'', Some 8), (''K07'', Some 7),
      (''K06'', Some 6), (''K05'', Some 5), (''K04'', Some 4), (''K03'', Some 3),
      (''K02'', Some 2), (''K01'', Some 1), (''K00'', Some 0)]"

definition demo_closes :: "rat list" where
  "demo_closes = 1 # replicate 120 2"

section \<open>price\_calcs.py: pca\_analysis\<close>

text \<open>
  The square root makes the numbers of this function reals. \<open>np.dot(x, y)\<close> of two
  vectors, and the function \<open>lambda x: x/np.sqrt(np.dot(x, x))\<close> of line 96, which
  divides a vector by its length; on a zero vector every entry is \<open>0/0\<close>, \<open>nan\<close>.
\<close>

definition dot :: "real list \<Rightarrow> real list \<Rightarrow> real" where
  "dot x y = sum_list (map2 (*) x y)"

definition unit_scale :: "real list \<Rightarrow> real option list" where
  "unit_scale x =
     (if dot x x = 0 then map (\<lambda>v. None) x
      else map (\<lambda>v. Some (v / sqrt (dot x x))) x)"

text \<open>
  \<open>DataFrame.apply(f)\<close> with its default \<open>axis=0\<close> calls \<open>f\<close> on each column of the
  frame and puts the results side by side. A frame is the list of its rows; \<open>column k\<close> is
  its column at position \<open>k\<close>.
\<close>

definition column :: "nat \<Rightarrow> 'a list list \<Rightarrow> 'a list" where
  "column k rows = map (\<lambda>r. r ! k) rows"

definition apply_columns :: "('a list \<Rightarrow> 'b list) \<Rightarrow> nat \<Rightarrow> 'a list list \<Rightarrow> 'b list list" where
  "apply_columns f width rows =
     (let columns = map (\<lambda>k. f (column k rows)) [0..<width]
      in map (\<lambda>i. map (\<lambda>c. c ! i) columns) [0..<length rows])"

text \<open>Line 96: \<open>norm_loadings = loadings.apply(lambda x: x/np.sqrt(np.dot(x, x)))\<close>.\<close>

definition norm_loadings :: "real list list \<Rightarrow> real option list list" where
  "norm_loadings loadings = apply_columns unit_scale 4 loadings"

text \<open>The L2 norm of a vector, \<open>nan\<close> when an entry is.\<close>

definition l2_norm :: "real option list \<Rightarrow> real option" where
  "l2_norm x = (if None \<in> set x then None else Some (sqrt (sum_list (map (\<lambda>v. (the v)\<^sup>2) x))))"

text \<open>
  Line 90 standardises each column of \<open>prices\<close> with its mean and its sample standard
  deviation (\<open>ddof=1\<close>). A column of fewer than two prices or of zero deviation becomes
  \<open>nan\<close> or \<open>inf\<close>, on which scikit-learn raises \<open>ValueError\<close>.
\<close>

definition series_mean :: "real list \<Rightarrow> real" where
  "series_mean x = sum_list x / of_nat (length x)"

definition series_std :: "real list \<Rightarrow> real" where
  "series_std x =
     sqrt (sum_list (map (\<lambda>v. (v - series_mean x)\<^sup>2) x) / of_nat (length x - 1))"

definition standardize :: "real list \<Rightarrow> real list option" where
  "standardize x =
     (if length x < 2 \<or> series_std x = 0 then None
      else Some (map (\<lambda>v. (v - series_mean x) / series_std x) x))"

definition nan_dot :: "real option list \<Rightarrow> real list \<Rightarrow> real option" where
  "nan_dot x y = (if None \<in> set x then None else Some (dot (map the x) y))"

text \<open>
  \<open>pca_analysis\<close>. The price table is the list of its columns, one per ticker.
  \<open>PCA(n_components=4).fit(X).transform(X)\<close> belongs to scikit-learn and is the
  parameter \<open>pca\<close>: from the standardised columns it gives the scores, one row of four per
  date, or the exception it raises. Building the frame \<open>loadings\<close> raises \<open>ValueError\<close>
  when the scores do not have that shape.
\<close>

record factor_result =
  res_norm_loadings :: "real option list list"
  res_projections :: "real option list list"

definition pca_analysis ::
  "(real list list \<Rightarrow> error + real list list) \<Rightarrow> (string \<times> real list) list
     \<Rightarrow> error + factor_result" where
  "pca_analysis pca prices =
     (let X = map (\<lambda>(ticker, x). standardize x) prices;
          n_components = 4
      in if prices = [] \<or> None \<in> set X then Inl ValueError
         else
           bind_err (pca (map the X)) (\<lambda>loadings.
             if length loadings \<noteq> length (snd (hd prices))
                \<or> (\<exists>row \<in> set loadings. length row \<noteq> n_components)
             then Inl ValueError
             else
               let norm_loadings = norm_loadings loadings;
                   proj = map (\<lambda>k. map (\<lambda>(ticker, x). nan_dot (column k norm_loadings) x)
                                      prices)
                              [0..<n_components]
               in Inr \<lparr>res_norm_loadings = norm_loadings, res_projections = proj\<rparr>))"

text \<open>
  The claim about \<open>norm_loadings\<close> speaks of the L2 norm of a row being \<open>1\<close> within a
  tolerance. The next definition follows these words of the claim.
\<close>

definition claimed_unit_row :: "real \<Rightarrow> real option list \<Rightarrow> bool" where
  "claimed_unit_row tolerance row =
     (case l2_norm row of None \<Rightarrow> False | Some n \<Rightarrow> \<bar>n - 1\<bar> \<le> tolerance)"

text \<open>
  An example of six dates and four tickers. Its standardised table has the principal axes
  \<open>(1,1,1,1)/2\<close>, \<open>(1,-1,1,-1)/2\<close>, \<open>(1,1,-1,-1)/2\<close> and \<open>(1,-1,-1,1)/2\<close> with the
  variances \<open>2\<close>, \<open>1.2\<close>, \<open>0.6\<close> and \<open>0.2\<close>, and \<open>demo_pca\<close> returns its scores on these
  axes. The third date lies at the mean of every ticker.
\<close>

definition demo_loadings :: "real list list" where
  "demo_loadings =
     [[1, 1, 1, 1],
      [1, 1, 1, - 1],
      [0, 0, 0, 0],
      [1, 1, - 2, 0],
      [1, - 3, 0, 0],
      [- 4, 0, 0, 0]]"

definition demo_price_table :: "(string \<times> real list) list" where
  "demo_price_table =
     [(''A'', [104, 102, 100, 100, 98, 96]),
      (''B'', [100, 102, 100, 98, 104, 96]),
      (''C'', [100, 102, 100, 104, 98, 96]),
      (''D'', [100, 98, 100, 102, 104, 96])]"

definition demo_pca :: "real list list \<Rightarrow> error + real list list" where
  "demo_pca X = Inr (map (map (\<lambda>v. v / sqrt 2)) demo_loadings)"

definition demo_result :: factor_result where
  "demo_result =
     \<lparr>res_norm_loadings = norm_loadings (map (map (\<lambda>v. v / sqrt 2)) demo_loadings),
      res_projections =
        map (\<lambda>k. map (\<lambda>(ticker, x).
               nan_dot (column k (norm_loadings (map (map (\<lambda>v. v / sqrt 2)) demo_loadings))) x)
             demo_price_table) [0..<4]\<rparr>"

section \<open>The quantity ladder\<close>

lemma sum_weights_upto: "0 \<le> m \<Longrightarrow> sum_list (map (\<lambda>x. 2 * x) [1..m]) = m * (m + 1)"
proof (induction m rule: int_ge_induct)
  case base
  then show ?case by simp
next
  case (step i)
  have "[1..i + 1] = [1..i] @ [i + 1]"
    using step.hyps by (simp add: upto_rec2)
  then show ?case using step.IH by (simp add: algebra_simps)
qed

lemma py_int_nonneg: "0 \<le> x \<Longrightarrow> py_int x = \<lfloor>x\<rfloor>"
  by (simp add: py_int_def)

lemma py_int_le: "0 \<le> x \<Longrightarrow> of_int (py_int x) \<le> x"
  by (simp add: py_int_def)

lemma py_int_ge0: "0 \<le> x \<Longrightarrow> 0 \<le> py_int x"
  by (simp add: py_int_def)

lemma cap_bounds:
  assumes "2 \<le> n"
  shows "2 \<le> py_int (min 20 n)" and "py_int (min 20 n) \<le> 20"
    and "of_int (py_int (min 20 n)) \<le> n"
proof -
  have nn: "0 \<le> min 20 n" using assms by simp
  have "(2::rat) \<le> min 20 n" using assms by simp
  then have "2 \<le> \<lfloor>min 20 n\<rfloor>" by (simp add: le_floor_iff)
  then show "2 \<le> py_int (min 20 n)" using nn by (simp add: py_int_nonneg)
  have "\<lfloor>min 20 n\<rfloor> \<le> \<lfloor>20::rat\<rfloor>" by (rule floor_mono) simp
  then show "py_int (min 20 n) \<le> 20" using nn by (simp add: py_int_nonneg)
  have "of_int (py_int (min 20 n)) \<le> min 20 n" using nn by (rule py_int_le)
  then show "of_int (py_int (min 20 n)) \<le> n" by simp
qed

lemma sum_weights:
  assumes "2 \<le> n"
  shows "sum_list (weights n) = (py_int (min 20 n) - 1) * py_int (min 20 n)"
  using cap_bounds(1)[OF assms] sum_weights_upto[of "py_int (min 20 n) - 1"]
  by (simp add: weights_def)

lemma weights_pos: "q \<in> set (weights n) \<Longrightarrow> 0 < q"
  by (auto simp: weights_def Let_def)

lemma length_weights: "2 \<le> n \<Longrightarrow> int (length (weights n)) = py_int (min 20 n) - 1"
  using cap_bounds(1)[of n] by (simp add: weights_def)

lemma floor_sum_le:
  fixes g :: "int \<Rightarrow> rat"
  assumes "\<And>q. q \<in> set qs \<Longrightarrow> 0 \<le> g q"
  shows "of_int (sum_list (map (\<lambda>q. py_int (g q)) (filter P qs))) \<le> sum_list (map g qs)"
  using assms
proof (induction qs)
  case Nil
  then show ?case by simp
next
  case (Cons a qs)
  have ih: "of_int (sum_list (map (\<lambda>q. py_int (g q)) (filter P qs))) \<le> sum_list (map g qs)"
    using Cons by simp
  have a0: "0 \<le> g a" using Cons.prems by simp
  have a1: "of_int (py_int (g a)) \<le> g a" using a0 by (rule py_int_le)
  show ?case using ih a0 a1 by simp
qed

lemma sum_scaled:
  fixes c :: rat
  shows "sum_list (map (\<lambda>q. c * of_int q) qs) = c * of_int (sum_list qs)"
  by (induction qs) (simp_all add: algebra_simps)

text \<open>
  From two shares on, the ladder is computed without error: its entries are positive,
  there are at most \<open>cap - 1\<close> of them and at least one, and they sum to at most the
  number of shares.
\<close>

lemma ladder_ge2:
  assumes "2 \<le> n"
  shows "\<exists>qs. ladder_quantities n = Inr qs \<and> (\<forall>q \<in> set qs. 0 < q)
           \<and> int (length qs) \<le> py_int (min 20 n) - 1
           \<and> of_int (sum_list qs) \<le> n \<and> qs \<noteq> []"
proof -
  define cap where "cap = py_int (min 20 n)"
  define S where "S = sum_list (weights n)"
  define scale where "scale = n / of_int S"
  define f where "f = (\<lambda>q. py_int (scale * of_int q))"
  define qs where "qs = map f (filter (\<lambda>q. f q \<noteq> 0) (weights n))"
  have cap2: "2 \<le> cap" and capn: "of_int cap \<le> n"
    using cap_bounds[OF assms] by (simp_all add: cap_def)
  have S_eq: "S = (cap - 1) * cap" using sum_weights[OF assms] by (simp add: S_def cap_def)
  have S_pos: "0 < S" using cap2 by (simp add: S_eq)
  have scale_nn: "0 \<le> scale" using assms S_pos by (simp add: scale_def)
  have run: "ladder_quantities n = Inr qs"
    using S_pos by (simp add: ladder_quantities_def Let_def qs_def f_def scale_def S_def)
  have g_nn: "\<And>q. q \<in> set (weights n) \<Longrightarrow> 0 \<le> scale * of_int q"
    using scale_nn weights_pos by (simp add: less_imp_le)
  have pos: "\<forall>q \<in> set qs. 0 < q"
  proof
    fix q assume "q \<in> set qs"
    then obtain w where w: "w \<in> set (weights n)" "f w \<noteq> 0" "q = f w"
      by (auto simp: qs_def)
    have "0 \<le> f w" unfolding f_def using g_nn[OF w(1)] by (rule py_int_ge0)
    then show "0 < q" using w by simp
  qed
  have "length qs \<le> length (weights n)" by (simp add: qs_def)
  then have len: "int (length qs) \<le> py_int (min 20 n) - 1"
    using length_weights[OF assms] by simp
  have "of_int (sum_list qs) \<le> sum_list (map (\<lambda>q. scale * of_int q) (weights n))"
    unfolding qs_def f_def using g_nn by (rule floor_sum_le)
  also have "\<dots> = scale * of_int S" by (simp add: sum_scaled S_def)
  also have "\<dots> = n" using S_pos by (simp add: scale_def)
  finally have sum: "of_int (sum_list qs) \<le> n" .
  have "cap - 1 \<in> set [1..cap - 1]" using cap2 by simp
  then have "2 * (cap - 1) \<in> (\<lambda>x. 2 * x) ` set [1..cap - 1]" by (rule imageI)
  then have last_in: "2 * (cap - 1) \<in> set (weights n)"
    by (simp add: weights_def cap_def[symmetric])
  have "scale * of_int (2 * (cap - 1)) = 2 * n / of_int cap"
    using cap2 by (simp add: scale_def S_eq field_simps)
  moreover have "2 \<le> 2 * n / of_int cap"
    using cap2 capn by (simp add: field_simps)
  ultimately have "2 \<le> scale * of_int (2 * (cap - 1))" by simp
  then have "2 \<le> f (2 * (cap - 1))"
    by (simp add: f_def py_int_def le_floor_iff)
  then have "f (2 * (cap - 1)) \<in> set qs"
    using last_in by (auto simp: qs_def)
  then have ne: "qs \<noteq> []" by auto
  show ?thesis using run pos len sum ne by blast
qed

lemma ladder_ge2_example:
  "(2::rat) \<le> 3 \<and> (\<exists>qs. ladder_quantities 3 = Inr qs \<and> (\<forall>q \<in> set qs. 0 < q)
           \<and> int (length qs) \<le> py_int (min 20 3) - 1
           \<and> of_int (sum_list qs) \<le> (3::rat) \<and> qs \<noteq> [])"
  using ladder_ge2[of 3] by simp

text \<open>Below two shares the weight list is empty and the scale divides by zero.\<close>

lemma ladder_lt2:
  assumes "n < 2"
  shows "ladder_quantities n = Inl ZeroDivisionError"
proof -
  have "py_int (min 20 n) \<le> 1"
  proof (cases "0 \<le> n")
    case True
    then have "py_int (min 20 n) = \<lfloor>n\<rfloor>" using assms by (simp add: py_int_def min_def)
    moreover have "\<lfloor>n\<rfloor> < 2" using assms by (simp add: floor_less_iff)
    ultimately show ?thesis by simp
  next
    case False
    then have "py_int (min 20 n) = \<lceil>n\<rceil>" using assms by (simp add: py_int_def min_def)
    moreover have "\<lceil>n\<rceil> \<le> 0" using False by (simp add: ceiling_le_iff)
    ultimately show ?thesis by simp
  qed
  then have "weights n = []" by (simp add: weights_def)
  then show ?thesis by (simp add: ladder_quantities_def)
qed

lemma ladder_lt2_example: "(1::rat) < 2 \<and> ladder_quantities 1 = Inl ZeroDivisionError"
  using ladder_lt2[of 1] by simp

text \<open>
  C1. The claim promises, for every positive number of shares, a ladder of positive
  entries, of length at most \<open>cap - 1\<close> and of sum at most the number of shares. With
  one share \<open>cap = 1\<close>, the weight list is empty, its sum is \<open>0\<close>, and both
  \<open>create_sell_orders\<close> and \<open>create_buy_orders\<close> raise \<open>ZeroDivisionError\<close> on the
  scale, whatever the symbol and the prices: no ladder is produced.
\<close>

theorem ladder_one_share_raises:
  "create_sell_orders st s 1 = Inl ZeroDivisionError
   \<and> create_buy_orders st s 1 = Inl ZeroDivisionError"
  by (simp add: create_sell_orders_def create_buy_orders_def ladder_quantities_def
      weights_def py_int_def)

text \<open>
  C4. The claim promises an empty ladder and no error for a total quantity of \<open>0\<close>, and
  a ladder of at most one tranche and no error for \<open>1\<close> and \<open>2\<close>. The ladder
  computation raises \<open>ZeroDivisionError\<close> at \<open>0\<close> and at \<open>1\<close>; at \<open>2\<close> it returns the
  single tranche \<open>2\<close>.
\<close>

theorem ladder_edge_cases:
  "ladder_quantities 0 = Inl ZeroDivisionError
   \<and> ladder_quantities 1 = Inl ZeroDivisionError
   \<and> ladder_quantities 2 = Inr [2]"
  by (simp add: ladder_quantities_def weights_def py_int_def)

section \<open>The sell strategy\<close>

lemma length_linspace: "length (linspace a b k) = k"
  by (simp add: linspace_def)

lemma create_sell_orders_ge2:
  assumes "2 \<le> n"
  shows "\<exists>os. create_sell_orders st s n = Inr os \<and> os \<noteq> []
            \<and> (\<forall>ord \<in> set os. so_symbol ord = s \<and> so_instruction ord = ''SELL''
                  \<and> 0 < so_quantity ord)
            \<and> of_int (sum_list (map so_quantity os)) \<le> n"
proof -
  obtain qs where qs: "ladder_quantities n = Inr qs" "\<forall>q \<in> set qs. 0 < q"
      "of_int (sum_list qs) \<le> n" "qs \<noteq> []"
    using ladder_ge2[OF assms] by blast
  define prices where "prices = linspace (askPrice st + (1 / 10) * avg st)
      (askPrice st + (avg st + 2 * std st)) (length qs)"
  define os where "os = map (\<lambda>(price, quantity).
      \<lparr>so_symbol = s, so_price = price, so_quantity = quantity, so_instruction = ''SELL''\<rparr>)
      (zip prices qs)"
  have len: "length prices = length qs" by (simp add: prices_def length_linspace)
  have run: "create_sell_orders st s n = Inr os"
    by (simp add: create_sell_orders_def qs(1) Let_def os_def prices_def)
  have quants: "map so_quantity os = qs"
    using len by (simp add: os_def map_snd_zip comp_def case_prod_unfold)
  have ne: "os \<noteq> []" using qs(4) quants by auto
  have fields: "\<forall>ord \<in> set os. so_symbol ord = s \<and> so_instruction ord = ''SELL''"
    by (auto simp: os_def)
  have "\<forall>ord \<in> set os. so_quantity ord \<in> set qs"
    using quants by (metis image_eqI list.set_map)
  then have pos: "\<forall>ord \<in> set os. 0 < so_quantity ord" using qs(2) by blast
  show ?thesis using run ne fields pos quants qs(3) by auto
qed

lemma sell_loop_ge2:
  assumes "\<forall>p \<in> set ps. 2 \<le> longQuantity p"
  shows "\<exists>os. sell_loop market ps saved = (os, None)
            \<and> so_symbol ` set os = so_symbol ` set saved \<union> name ` set ps"
  using assms
proof (induction ps arbitrary: saved)
  case Nil
  then show ?case by simp
next
  case (Cons a ps)
  have "2 \<le> longQuantity a" using Cons.prems by simp
  then obtain new where new: "create_sell_orders (market (name a)) (name a) (longQuantity a) = Inr new"
      "new \<noteq> []" "\<forall>ord \<in> set new. so_symbol ord = name a"
    using create_sell_orders_ge2 by blast
  have syms: "so_symbol ` set new = {name a}"
    using new(2,3) by (cases new) auto
  obtain os where os: "sell_loop market ps (saved @ new) = (os, None)"
      "so_symbol ` set os = so_symbol ` set (saved @ new) \<union> name ` set ps"
    using Cons.IH[of "saved @ new"] Cons.prems by auto
  have "sell_loop market (a # ps) saved = (os, None)" using new(1) os(1) by simp
  moreover have "so_symbol ` set os = so_symbol ` set saved \<union> name ` set (a # ps)"
    using os(2) syms by (auto simp: image_Un)
  ultimately show ?case by blast
qed

lemma run_sell_strategy_ge2:
  assumes "\<forall>p \<in> set etf_positions.
             1 / 100 < currentDayProfitLossPercentage p \<longrightarrow> 2 \<le> longQuantity p"
  shows "\<exists>os. run_sell_strategy market etf_positions = (os, None)
            \<and> set (map so_symbol os)
                = set (map name
                    (filter (\<lambda>p. 1 / 100 < currentDayProfitLossPercentage p) etf_positions))"
proof -
  let ?sells = "filter (\<lambda>p. 1 / 100 < currentDayProfitLossPercentage p) etf_positions"
  have "\<forall>p \<in> set ?sells. 2 \<le> longQuantity p" using assms by simp
  from sell_loop_ge2[OF this, of market "[]"]
  show ?thesis by (simp add: run_sell_strategy_def)
qed

lemma run_sell_strategy_ge2_example:
  "(\<forall>p \<in> set [\<lparr>name = ''AAA'', currentDayProfitLossPercentage = 1 / 50, longQuantity = 3\<rparr>,
      \<lparr>name = ''BBB'', currentDayProfitLossPercentage = 1 / 200, longQuantity = 1\<rparr>].
        1 / 100 < currentDayProfitLossPercentage p \<longrightarrow> 2 \<le> longQuantity p)
   \<and> (\<exists>os. run_sell_strategy market
     [\<lparr>name = ''AAA'', currentDayProfitLossPercentage = 1 / 50, longQuantity = 3\<rparr>,
      \<lparr>name = ''BBB'', currentDayProfitLossPercentage = 1 / 200, longQuantity = 1\<rparr>] = (os, None)
      \<and> so_symbol ` set os = {''AAA''})"
  using run_sell_strategy_ge2[of "[\<lparr>name = ''AAA'', currentDayProfitLossPercentage = 1 / 50, longQuantity = 3\<rparr>,
      \<lparr>name = ''BBB'', currentDayProfitLossPercentage = 1 / 200, longQuantity = 1\<rparr>]" market]
  by simp

text \<open>
  The same exception is reached from the buy strategy: with a last price of \<open>300\<close> the
  selected ticker is sized \<open>int(500/300) = 1\<close> share and \<open>create_buy_orders\<close> raises.
\<close>

lemma buy_size_one_share:
  "py_int (500 / 300) = 1 \<and> create_buy_orders st s (of_int (py_int (500 / 300))) = Inl ZeroDivisionError"
proof -
  have "py_int (500 / 300) = 1" by (simp add: py_int_def) linarith
  then show ?thesis
    by (simp add: create_buy_orders_def ladder_quantities_def weights_def py_int_def)
qed

text \<open>
  C8. The claim promises sell orders for exactly the positions whose intraday
  profit/loss percentage exceeds \<open>.01\<close>. Both positions below exceed it; the first holds
  one share, \<open>create_sell_orders\<close> raises \<open>ZeroDivisionError\<close> on it, the loop ends,
  and no order is saved for either position, whatever the market data.
\<close>

theorem sell_strategy_one_share_position:
  "run_sell_strategy market
     [\<lparr>name = ''AAA'', currentDayProfitLossPercentage = 1 / 50, longQuantity = 1\<rparr>,
      \<lparr>name = ''BBB'', currentDayProfitLossPercentage = 1 / 20, longQuantity = 100\<rparr>]
   = ([], Some ZeroDivisionError)"
  by (simp add: run_sell_strategy_def create_sell_orders_def ladder_quantities_def
      weights_def py_int_def)

section \<open>Bracket and pegged orders\<close>

lemma bind_err_Inr [simp]: "bind_err (Inr x) f = f x"
  by (simp add: bind_err_def)

lemma bind_err_Inl [simp]: "bind_err (Inl e) f = Inl e"
  by (simp add: bind_err_def)








text \<open>
  C10. Two calls of \<open>smart_bracket\<close> that differ only in the \<open>quantity\<close> argument give
  the same result, an error or an order. The quantity of a returned order is
  \<open>int(amount / quote)\<close>, which is the floor of \<open>amount / quote\<close> when that is not
  negative.
\<close>

theorem smart_bracket_ignores_quantity:
  "smart_bracket symbol instruction q1 amount limit_prob profit_prob bars quotes
     = smart_bracket symbol instruction q2 amount limit_prob profit_prob bars quotes
   \<and> (\<forall>ord quote.
         smart_bracket symbol instruction q1 amount limit_prob profit_prob bars quotes = Inr ord
         \<and> quotes symbol = Some quote
         \<longrightarrow> o_quantity ord = py_int (amount / quote)
             \<and> (0 \<le> amount / quote \<longrightarrow> o_quantity ord = \<lfloor>amount / quote\<rfloor>))"
  by (auto simp: smart_bracket_def Let_def bind_err_def py_int_def
      split: option.splits sum.splits if_splits prod.splits)


theorem smart_bracket_ignores_quantity_witness:
  "smart_bracket ''X'' ''BUY'' 7 1000 (1 / 2) (1 / 2) [''X'' \<mapsto> demo_bars] [''X'' \<mapsto> 111 / 10]
     = smart_bracket ''X'' ''BUY'' 100 1000 (1 / 2) (1 / 2) [''X'' \<mapsto> demo_bars] [''X'' \<mapsto> 111 / 10]
   \<and> (\<exists>ord. smart_bracket ''X'' ''BUY'' 7 1000 (1 / 2) (1 / 2)
                [''X'' \<mapsto> demo_bars] [''X'' \<mapsto> 111 / 10] = Inr ord
          \<and> o_quantity ord = 90)"
proof -
  note t = smart_bracket_ignores_quantity[of "''X''" "''BUY''" 7 1000 "1 / 2" "1 / 2"
      "[''X'' \<mapsto> demo_bars]" "[''X'' \<mapsto> 111 / 10]" 100]
  have "smart_bracket ''X'' ''BUY'' 100 1000 (1 / 2) (1 / 2)
                [''X'' \<mapsto> demo_bars] [''X'' \<mapsto> 111 / 10]
         = Inr \<lparr>o_symbol = ''X'', o_instruction = ''BUY'', o_quantity = 90, o_tif = ''DAY'',
                o_outside_rth = True, o_price = Some (511 / 50),
                o_profit_price = Some (247 / 20), o_stop_price = None\<rparr>"
    by code_simp
  then obtain ord where ord: "smart_bracket ''X'' ''BUY'' 7 1000 (1 / 2) (1 / 2)
                [''X'' \<mapsto> demo_bars] [''X'' \<mapsto> 111 / 10] = Inr ord"
    using t by auto
  have q: "[''X'' \<mapsto> (111 / 10 :: rat)] ''X'' = Some (111 / 10)" by simp
  have nn: "(0::rat) \<le> 1000 / (111 / 10)" by simp
  have "o_quantity ord = \<lfloor>(1000::rat) / (111 / 10)\<rfloor>"
    using t ord q nn by blast
  moreover have "\<lfloor>(1000::rat) / (111 / 10)\<rfloor> = 90" by code_simp
  ultimately have "o_quantity ord = 90" by simp
  then show ?thesis using t ord by blast
qed




section \<open>Price differentials\<close>

lemma length_column_values [simp]: "length (column_values f bars) = length bars"
  by (simp add: column_values_def)

lemma length_elementwise [simp]: "length (elementwise f A B) = min (length A) (length B)"
  by (simp add: elementwise_def)

lemma length_calc_differentials: "length (calc_differentials bars) = length bars - 1"
  by (simp add: calc_differentials_def Let_def)

lemma nth_column_values:
  "i < length bars \<Longrightarrow> column_values f bars ! i = map f (snd (bars ! i))"
  by (simp add: column_values_def case_prod_unfold)

lemma nth_elementwise:
  "i < length A \<Longrightarrow> i < length B \<Longrightarrow> elementwise f A B ! i = map2 f (A ! i) (B ! i)"
  by (simp add: elementwise_def)

lemma calc_differentials_nth:
  assumes i: "1 \<le> i" "i < length bars"
    and rect: "\<forall>row \<in> set bars. length (snd row) = nsym"
    and s: "s < nsym"
  shows "fst (calc_differentials bars ! (i - 1)) = fst (bars ! i)"
    and "length (snd (calc_differentials bars ! (i - 1))) = nsym"
    and "snd (calc_differentials bars ! (i - 1)) ! s =
          (let b = snd (bars ! i) ! s; p = snd (bars ! (i - 1)) ! s
           in \<lparr>cc = np_div (close_price b - close_price p) (close_price p),
               co = np_div (open_price b - close_price p) (close_price p),
               oc = np_div (close_price b - open_price b) (open_price b),
               high_rel = np_div (high b - open_price b) (open_price b),
               low_rel = np_div (low b - open_price b) (open_price b)\<rparr>)"
proof -
  define j where "j = i - 1"
  have j: "j < length (tl bars)" "j < length (butlast bars)" "Suc j = i"
    using i by (simp_all add: j_def)
  have cur: "tl bars ! j = bars ! i" using j i by (simp add: nth_tl)
  have prev: "butlast bars ! j = bars ! j" using j by (simp add: nth_butlast)
  have lc: "length (snd (bars ! i)) = nsym" using rect i by simp
  have lp: "length (snd (bars ! j)) = nsym" using rect i j by simp
  have cv: "\<And>f. column_values f (tl bars) ! j = map f (snd (bars ! i))"
    using j cur by (simp add: nth_column_values)
  have pv: "\<And>f. column_values f (butlast bars) ! j = map f (snd (bars ! j))"
    using j prev by (simp add: nth_column_values)
  have a: "fst (calc_differentials bars ! j) = fst (bars ! i)"
    using j cur by (simp add: calc_differentials_def Let_def)
  have b: "length (snd (calc_differentials bars ! j)) = nsym"
    using j lc lp by (simp add: calc_differentials_def Let_def nth_elementwise cv pv)
  have c: "snd (calc_differentials bars ! j) ! s =
          (let b = snd (bars ! i) ! s; p = snd (bars ! j) ! s
           in \<lparr>cc = np_div (close_price b - close_price p) (close_price p),
               co = np_div (open_price b - close_price p) (close_price p),
               oc = np_div (close_price b - open_price b) (open_price b),
               high_rel = np_div (high b - open_price b) (open_price b),
               low_rel = np_div (low b - open_price b) (open_price b)\<rparr>)"
    using j lc lp s by (simp add: calc_differentials_def Let_def nth_elementwise cv pv)
  show "fst (calc_differentials bars ! (i - 1)) = fst (bars ! i)"
    using a by (simp add: j_def)
  show "length (snd (calc_differentials bars ! (i - 1))) = nsym"
    using b by (simp add: j_def)
  show "snd (calc_differentials bars ! (i - 1)) ! s =
          (let b = snd (bars ! i) ! s; p = snd (bars ! (i - 1)) ! s
           in \<lparr>cc = np_div (close_price b - close_price p) (close_price p),
               co = np_div (open_price b - close_price p) (close_price p),
               oc = np_div (close_price b - open_price b) (open_price b),
               high_rel = np_div (high b - open_price b) (open_price b),
               low_rel = np_div (low b - open_price b) (open_price b)\<rparr>)"
    using c by (simp add: j_def)
qed

text \<open>
  C3. For a table of \<open>N \<ge> 2\<close> dates, every date with one bar for each of the \<open>nsym\<close>
  symbols, \<open>calc_differentials\<close> returns \<open>N - 1\<close> rows. Row \<open>i - 1\<close> carries the date
  \<open>i\<close>, and for every symbol its entries are the five quotients of the claim, taken
  between date \<open>i\<close> and date \<open>i - 1\<close>: \<open>cc\<close> and \<open>co\<close> relative to the previous close,
  \<open>oc\<close>, \<open>high\<close> and \<open>low\<close> relative to the open of the day. A quotient whose denominator is
  zero has no finite value.
\<close>

theorem calc_differentials_table:
  assumes "2 \<le> length bars" and "\<forall>row \<in> set bars. length (snd row) = nsym"
  shows "length (calc_differentials bars) = length bars - 1
    \<and> (\<forall>i s. 1 \<le> i \<and> i < length bars \<and> s < nsym \<longrightarrow>
          fst (calc_differentials bars ! (i - 1)) = fst (bars ! i)
        \<and> length (snd (calc_differentials bars ! (i - 1))) = nsym
        \<and> snd (calc_differentials bars ! (i - 1)) ! s =
          (let b = snd (bars ! i) ! s; p = snd (bars ! (i - 1)) ! s
           in \<lparr>cc = np_div (close_price b - close_price p) (close_price p),
               co = np_div (open_price b - close_price p) (close_price p),
               oc = np_div (close_price b - open_price b) (open_price b),
               high_rel = np_div (high b - open_price b) (open_price b),
               low_rel = np_div (low b - open_price b) (open_price b)\<rparr>))"
  using assms(2) length_calc_differentials[of bars] calc_differentials_nth[of _ bars nsym]
  by (intro conjI allI impI) blast+

theorem calc_differentials_table_witness:
  "2 \<le> length demo_table \<and> map (\<lambda>row. length (snd row)) demo_table = [1, 1]
   \<and> length (calc_differentials demo_table) = 1
   \<and> fst (calc_differentials demo_table ! 0) = ''d1''
   \<and> snd (calc_differentials demo_table ! 0) ! 0 =
        \<lparr>cc = Some (1 / 10), co = Some (1 / 20), oc = Some (1 / 21),
         high_rel = Some (1 / 15), low_rel = Some (- 1 / 105)\<rparr>"
proof -
  have h1: "2 \<le> length demo_table" by (simp add: demo_table_def)
  have h2: "\<forall>row \<in> set demo_table. length (snd row) = 1" by (simp add: demo_table_def)
  note t = calc_differentials_table[OF h1 h2]
  have len: "length (calc_differentials demo_table) = 1"
    using t by (simp add: demo_table_def)
  have "1 \<le> (1::nat) \<and> 1 < length demo_table \<and> (0::nat) < 1" by (simp add: demo_table_def)
  with t have "fst (calc_differentials demo_table ! (1 - 1)) = fst (demo_table ! 1)
        \<and> snd (calc_differentials demo_table ! (1 - 1)) ! 0 =
          (let b = snd (demo_table ! 1) ! 0; p = snd (demo_table ! (1 - 1)) ! 0
           in \<lparr>cc = np_div (close_price b - close_price p) (close_price p),
               co = np_div (open_price b - close_price p) (close_price p),
               oc = np_div (close_price b - open_price b) (open_price b),
               high_rel = np_div (high b - open_price b) (open_price b),
               low_rel = np_div (low b - open_price b) (open_price b)\<rparr>)"
    by blast
  then have "fst (calc_differentials demo_table ! 0) = ''d1''
     \<and> snd (calc_differentials demo_table ! 0) ! 0 =
        \<lparr>cc = Some (1 / 10), co = Some (1 / 20), oc = Some (1 / 21),
         high_rel = Some (1 / 15), low_rel = Some (- 1 / 105)\<rparr>"
    by (simp add: demo_table_def np_div_def)
  moreover have "map (\<lambda>row. length (snd row)) demo_table = [1, 1]"
    by (simp add: demo_table_def)
  ultimately show ?thesis using h1 len by (intro conjI) simp_all
qed

section \<open>Windowed returns\<close>

lemma loc_set_twice: "loc_set i v (loc_set i u frame) = loc_set i v frame"
  by (induction frame) (auto simp: loc_set_def)

lemma fold_loc_set:
  "fold (\<lambda>i frame. loc_set i (g i) frame) ws (map (\<lambda>i. (i, u i)) ks)
     = map (\<lambda>i. (i, if i \<in> set ws then g i else u i)) ks"
proof (induction ws arbitrary: u)
  case Nil
  then show ?case by simp
next
  case (Cons w ws)
  have "loc_set w (g w) (map (\<lambda>i. (i, u i)) ks)
          = map (\<lambda>i. (i, (u(w := g w)) i)) ks"
    by (simp add: loc_set_def)
  then show ?case using Cons.IH[of "u(w := g w)"] by auto
qed

lemma length_pct_change:
  "pct_change prices = Inr changes \<Longrightarrow> length changes = length prices - 1"
  by (auto simp: pct_change_def split: if_splits)

lemma scaled_price_change_rows:
  assumes "pct_change prices = Inr changes"
  shows "scaled_price_change prices
           = Inr (map (\<lambda>w. (w, mean (take w (rev changes)))) [1..<length prices div 4])"
proof -
  let ?g = "\<lambda>i. mean (take i (rev changes))"
  let ?m = "length prices div 4"
  have body: "(\<lambda>i scaled_dP.
                  let avg = mean_skipna (rolling_sum i (rev changes));
                      scaled_dP = loc_set i (nan_sub (mean (take i (rev changes))) avg) scaled_dP
                  in loc_set i (mean (take i (rev changes))) scaled_dP)
              = (\<lambda>i frame. loc_set i (?g i) frame)"
    by (simp add: Let_def loc_set_twice)
  have "fold (\<lambda>i frame. loc_set i (?g i) frame) [1..<?m] (map (\<lambda>i. (i, None)) [1..<?m])
          = map (\<lambda>i. (i, if i \<in> set [1..<?m] then ?g i else None)) [1..<?m]"
    by (rule fold_loc_set)
  also have "\<dots> = map (\<lambda>w. (w, ?g w)) [1..<?m]" by simp
  finally show ?thesis
    using assms by (simp add: scaled_price_change_def Let_def loc_set_twice)
qed

text \<open>
  C9. For a non-empty series of non-zero prices, with \<open>M\<close> returns, \<open>scaled_price_change\<close>
  returns one row for each window length \<open>w\<close> from \<open>1\<close> to \<open>(M + 1) div 4 - 1\<close>, and
  row \<open>w\<close> is the plain mean of the \<open>w\<close> most recent returns, which are the first \<open>w\<close>
  entries of the reversed series. When \<open>(M + 1) div 4\<close> is below \<open>2\<close> the result is empty,
  and no error is raised.
\<close>

theorem scaled_price_change_means:
  assumes "prices \<noteq> []" and "0 \<notin> set prices"
  shows "\<exists>changes rows.
           pct_change prices = Inr changes \<and> length prices = length changes + 1
         \<and> scaled_price_change prices = Inr rows
         \<and> map fst rows = [1..<(length changes + 1) div 4]
         \<and> (\<forall>w. 1 \<le> w \<and> w < (length changes + 1) div 4 \<longrightarrow>
               rows ! (w - 1)
                 = (w, Some (sum_list (rev (drop (length changes - w) changes)) / of_nat w)))
         \<and> ((length changes + 1) div 4 < 2 \<longrightarrow> rows = [])"
proof -
  define changes where
    "changes = map2 (\<lambda>previous current. current / previous - 1) (butlast prices) (tl prices)"
  have "0 \<notin> set (butlast prices)" using assms(2) by (meson in_set_butlastD)
  then have pc: "pct_change prices = Inr changes"
    by (simp add: pct_change_def changes_def)
  have len: "length prices = length changes + 1"
    using assms(1) by (simp add: changes_def)
  define m where "m = (length changes + 1) div 4"
  define rows where "rows = map (\<lambda>w. (w, mean (take w (rev changes)))) [1..<m]"
  have run: "scaled_price_change prices = Inr rows"
    using scaled_price_change_rows[OF pc] by (simp add: rows_def m_def len)
  have idx: "map fst rows = [1..<m]"
    by (simp add: rows_def comp_def)
  have each: "\<forall>w. 1 \<le> w \<and> w < m \<longrightarrow>
      rows ! (w - 1) = (w, Some (sum_list (rev (drop (length changes - w) changes)) / of_nat w))"
  proof (intro allI impI)
    fix w assume w: "1 \<le> w \<and> w < m"
    then have wl: "w \<le> length changes" unfolding m_def by linarith
    have w1: "1 \<le> w" and w2: "w < m" using w by simp_all
    have "w - 1 < length [1..<m]" using w1 w2 by simp
    moreover have "[1..<m] ! (w - 1) = w" using w1 w2 by (simp add: nth_upt)
    ultimately have "w - 1 < length [1..<m]" and "[1..<m] ! (w - 1) = w" by simp_all
    then have "rows ! (w - 1) = (w, mean (take w (rev changes)))"
      unfolding rows_def by (simp only: nth_map)
    moreover have "take w (rev changes) = rev (drop (length changes - w) changes)"
      by (simp add: take_rev)
    moreover have "length (rev (drop (length changes - w) changes)) = w"
      using wl by simp
    ultimately show "rows ! (w - 1)
        = (w, Some (sum_list (rev (drop (length changes - w) changes)) / of_nat w))"
      using w by (auto simp: mean_def)
  qed
  have empty: "m < 2 \<longrightarrow> rows = []" by (simp add: rows_def)
  show ?thesis using pc len run idx each empty unfolding m_def by blast
qed

theorem scaled_price_change_means_witness:
  "demo_prices \<noteq> [] \<and> 0 \<notin> set demo_prices
   \<and> (\<exists>rows. scaled_price_change demo_prices = Inr rows
          \<and> map fst rows = [1, 2] \<and> rows ! 0 = (1, Some (- 2 / 3))
          \<and> rows ! 1 = (2, Some (2 / 3)))
   \<and> [1, 2, 4 :: rat] \<noteq> [] \<and> 0 \<notin> set [1, 2, 4 :: rat]
   \<and> scaled_price_change [1, 2, 4] = Inr []"
proof -
  have h1: "demo_prices \<noteq> []" and h2: "0 \<notin> set demo_prices"
    by (simp_all add: demo_prices_def)
  have pc: "pct_change demo_prices
              = Inr [1, 1, 1, 1, - 1 / 2, - 1 / 2, - 1 / 2, - 1 / 2, 2, 2, 2, - 2 / 3]"
    by code_simp
  obtain changes rows where r: "pct_change demo_prices = Inr changes"
      "scaled_price_change demo_prices = Inr rows"
      "map fst rows = [1..<(length changes + 1) div 4]"
      "\<forall>w. 1 \<le> w \<and> w < (length changes + 1) div 4 \<longrightarrow>
         rows ! (w - 1)
           = (w, Some (sum_list (rev (drop (length changes - w) changes)) / of_nat w))"
    using scaled_price_change_means[OF h1 h2] by blast
  have ch: "changes = [1, 1, 1, 1, - 1 / 2, - 1 / 2, - 1 / 2, - 1 / 2, 2, 2, 2, - 2 / 3]"
    using r(1) pc by simp
  have idx: "map fst rows = [1, 2]"
    using r(3) by (simp add: ch upt_rec)
  have "(1::nat) \<le> 1 \<and> 1 < (length changes + 1) div 4" by (simp add: ch)
  then have "rows ! (1 - 1)
      = (1, Some (sum_list (rev (drop (length changes - 1) changes)) / of_nat 1))"
    using r(4) by blast
  then have r0: "rows ! 0 = (1, Some (- 2 / 3))" by (simp add: ch)
  have "(1::nat) \<le> 2 \<and> 2 < (length changes + 1) div 4" by (simp add: ch)
  then have "rows ! (2 - 1)
      = (2, Some (sum_list (rev (drop (length changes - 2) changes)) / of_nat 2))"
    using r(4) by blast
  then have r1: "rows ! 1 = (2, Some (2 / 3))" by (simp add: ch)
  have s1: "[1, 2, 4 :: rat] \<noteq> []" and s2: "0 \<notin> set [1, 2, 4 :: rat]" by simp_all
  obtain changes' rows' where r': "pct_change [1, 2, 4] = Inr changes'"
      "length [1, 2, 4 :: rat] = length changes' + 1"
      "scaled_price_change [1, 2, 4] = Inr rows'"
      "(length changes' + 1) div 4 < 2 \<longrightarrow> rows' = []"
    using scaled_price_change_means[OF s1 s2] by blast
  have "rows' = []" using r'(2,4) by simp
  then have short: "scaled_price_change [1, 2, 4] = Inr []" using r'(3) by simp
  have "\<exists>rows. scaled_price_change demo_prices = Inr rows
          \<and> map fst rows = [1, 2] \<and> rows ! 0 = (1, Some (- 2 / 3))
          \<and> rows ! 1 = (2, Some (2 / 3))"
    using r(2) idx r0 r1 by (intro exI[of _ rows] conjI)
  then show ?thesis using h1 h2 s1 s2 short by (intro conjI)
qed

section \<open>The buy strategy\<close>

lemma mset_insert_ranked: "mset (insert_ranked x ys) = add_mset x (mset ys)"
  by (induction ys) auto

lemma mset_sort_values_descending: "mset (sort_values_descending xs) = mset xs"
  by (induction xs) (simp_all add: sort_values_descending_def mset_insert_ranked)

lemma set_insert_ranked: "set (insert_ranked x ys) = insert x (set ys)"
  by (induction ys) auto

lemma ranks_before_total: "\<not> ranks_before a b \<Longrightarrow> ranks_before b a"
  by (auto simp: ranks_before_def split: option.splits)

lemma ranks_before_trans: "ranks_before a b \<Longrightarrow> ranks_before b c \<Longrightarrow> ranks_before a c"
  by (auto simp: ranks_before_def split: option.splits)

lemma sorted_insert_ranked:
  "sorted_wrt (\<lambda>a b. ranks_before (snd a) (snd b)) ys
   \<Longrightarrow> sorted_wrt (\<lambda>a b. ranks_before (snd a) (snd b)) (insert_ranked x ys)"
proof (induction ys)
  case Nil
  then show ?case by simp
next
  case (Cons y ys)
  show ?case
  proof (cases "ranks_before (snd x) (snd y)")
    case True
    then have "\<forall>z \<in> set ys. ranks_before (snd x) (snd z)"
      using Cons.prems ranks_before_trans by auto
    then show ?thesis using True Cons.prems by simp
  next
    case False
    then have "ranks_before (snd y) (snd x)" by (rule ranks_before_total)
    then show ?thesis using False Cons by (auto simp: set_insert_ranked)
  qed
qed

lemma sorted_sort_values_descending:
  "sorted_wrt (\<lambda>a b. ranks_before (snd a) (snd b)) (sort_values_descending xs)"
  by (induction xs) (simp_all add: sort_values_descending_def sorted_insert_ranked)

lemma length_sort_values_descending: "length (sort_values_descending xs) = length xs"
  by (metis mset_sort_values_descending size_mset)

lemma pct_change_nonzero:
  "0 \<notin> set closes \<Longrightarrow> \<exists>dP. pct_change closes = Inr dP"
  by (auto simp: pct_change_def dest: in_set_butlastD)

lemma score_nonzero:
  assumes "0 \<notin> set closes"
  shows "\<exists>dP. pct_change closes = Inr dP
           \<and> score closes = Inr (nan_sub (mean_skipna (rolling_sum 60 dP))
                                   (Some (sum_list (iloc_last 30 dP))))"
  using pct_change_nonzero[OF assms] by (auto simp: score_def Let_def)

lemma estimate_nonzero:
  assumes "\<forall>row \<in> set P. 0 \<notin> set (snd row)"
  shows "\<exists>scores. estimate_30_day_return P = Inr scores
           \<and> map fst scores = map fst P
           \<and> (\<forall>i < length P. score (snd (P ! i)) = Inr (snd (scores ! i)))"
  using assms
proof (induction P)
  case Nil
  then show ?case by (simp add: estimate_30_day_return_def)
next
  case (Cons row P)
  obtain ticker closes where row: "row = (ticker, closes)" by (cases row)
  have "0 \<notin> set closes" using Cons.prems row by simp
  then obtain v where v: "score closes = Inr v" using score_nonzero by blast
  obtain scores where sc: "estimate_30_day_return P = Inr scores"
      "map fst scores = map fst P"
      "\<forall>i < length P. score (snd (P ! i)) = Inr (snd (scores ! i))"
    using Cons by auto
  have run: "estimate_30_day_return (row # P) = Inr ((ticker, v) # scores)"
    using sc(1) v by (simp add: estimate_30_day_return_def row)
  have names: "map fst ((ticker, v) # scores) = map fst (row # P)"
    using sc(2) row by simp
  have each: "\<forall>i < length (row # P).
      score (snd ((row # P) ! i)) = Inr (snd (((ticker, v) # scores) ! i))"
  proof (intro allI impI)
    fix i assume "i < length (row # P)"
    then show "score (snd ((row # P) ! i)) = Inr (snd (((ticker, v) # scores) ! i))"
      using sc(3) v row by (cases i) auto
  qed
  show ?case using run names each by blast
qed


lemma filter_upt_from: "filter (\<lambda>k. a \<le> k) [0..<n] = [a..<n]"
proof (induction n)
  case 0
  then show ?case by simp
next
  case (Suc n)
  then show ?case by (cases "a \<le> n") auto
qed

lemma map_upt_shift: "map (\<lambda>k. g (k - a)) [a..<n] = map g [0..<n - a]"
proof -
  have "[a..<n] = map (\<lambda>j. j + a) [0..<n - a]"
    by (cases "a \<le> n") (simp_all add: map_add_upt)
  then have "map (\<lambda>k. g (k - a)) [a..<n] = map (\<lambda>k. g (k - a)) (map (\<lambda>j. j + a) [0..<n - a])"
    by simp
  also have "\<dots> = map g [0..<n - a]" by (simp add: comp_def)
  finally show ?thesis .
qed

lemma complete_windows:
  assumes "1 \<le> w"
  shows "map the (filter (\<lambda>x. x \<noteq> None) (rolling_sum w xs))
           = map (\<lambda>k. sum_list (take w (drop k xs))) [0..<length xs + 1 - w]"
proof -
  let ?f = "\<lambda>k. if k + 1 < w then None else Some (sum_list (take w (drop (k + 1 - w) xs)))"
  have keep: "(\<lambda>k. ?f k \<noteq> None) = (\<lambda>k. w - 1 \<le> k)"
    using assms by (intro ext) auto
  have "filter (\<lambda>x. x \<noteq> None) (rolling_sum w xs)
          = map ?f (filter (\<lambda>k. ?f k \<noteq> None) [0..<length xs])"
    by (simp add: rolling_sum_def filter_map comp_def)
  also have "\<dots> = map ?f [w - 1..<length xs]"
    by (simp only: keep filter_upt_from)
  finally have "map the (filter (\<lambda>x. x \<noteq> None) (rolling_sum w xs))
          = map (\<lambda>k. sum_list (take w (drop (k - (w - 1)) xs))) [w - 1..<length xs]"
    using assms by (auto simp: comp_def)
  also have "\<dots> = map (\<lambda>k. sum_list (take w (drop k xs))) [0..<length xs - (w - 1)]"
    by (rule map_upt_shift)
  finally show ?thesis using assms by simp
qed

lemma mean_skipna_rolling_sum:
  assumes "1 \<le> w"
  shows "mean_skipna (rolling_sum w xs)
           = (if length xs < w then None
              else Some (sum_list (map (\<lambda>k. sum_list (take w (drop k xs)))
                                     [0..<length xs + 1 - w])
                         / of_nat (length xs + 1 - w)))"
  unfolding mean_skipna_def complete_windows[OF assms]
  by (auto simp: mean_def)

lemma ranked_ticker:
  assumes "mset ranking = mset scores" and "map fst scores = map fst P"
    and "i < length ranking"
  shows "fst (ranking ! i) \<in> fst ` set P"
proof -
  have "ranking ! i \<in> set ranking" using assms(3) by simp
  then have "ranking ! i \<in> set scores" using assms(1) by (metis set_mset_mset)
  then have "fst (ranking ! i) \<in> set (map fst scores)" by simp
  then show ?thesis using assms(2) by simp
qed

text \<open>Evaluation of the examples.\<close>

lemma pct_change_jump:
  assumes "a \<noteq> 0" and "c \<noteq> 0"
  shows "pct_change (a # replicate (Suc n) c) = Inr ((c / a - 1) # replicate n 0)"
proof -
  have "butlast (replicate (Suc n) c) = replicate n c"
    by (induction n) simp_all
  then have b: "butlast (a # replicate (Suc n) c) = a # replicate n c"
    by simp
  have "map2 (\<lambda>previous current. current / previous - 1) (a # replicate n c) (c # replicate n c)
          = (c / a - 1) # replicate n 0"
    using assms by (simp add: zip_replicate)
  then show ?thesis using assms unfolding pct_change_def b by simp
qed

lemma score_jump:
  assumes "c \<noteq> 0"
  shows "score (1 # replicate 60 c) = Inr (Some (c - 1))"
proof -
  have r: "replicate 60 c = replicate (Suc 59) c" by simp
  have pc: "pct_change (1 # replicate 60 c) = Inr ((c - 1) # replicate 59 0)"
    unfolding r using pct_change_jump[of 1 c 59] assms by simp
  have w: "mean_skipna (rolling_sum 60 ((c - 1) # replicate 59 0)) = Some (c - 1)"
    by (simp add: mean_skipna_rolling_sum sum_list_replicate)
  have l: "sum_list (iloc_last 30 ((c - 1) # replicate 59 0)) = 0"
    by (simp add: iloc_last_def sum_list_replicate)
  show ?thesis by (simp add: score_def pc w l Let_def nan_sub_def del: replicate.simps)
qed

lemma demo_ranking_eval: "buy_ranking demo_candidates = Inr demo_ranking"
  by (simp add: buy_ranking_def estimate_30_day_return_def demo_candidates_def score_jump
      sort_values_descending_def ranks_before_def demo_ranking_def)

lemma demo_orders_eval:
  "buy_orders (\<lambda>ticker. 100) demo_candidates = Inr [(''K10'', 5), (''K00'', 5)]"
  by (simp add: buy_orders_def demo_ranking_eval take_positions_def py_int_def)
    (simp add: demo_ranking_def)

lemma demo_window_sums:
  "map the (filter (\<lambda>x. x \<noteq> None) (rolling_sum 60 (1 # replicate 119 0)))
     = 1 # replicate 60 0"
proof -
  let ?g = "\<lambda>k. sum_list (take 60 (drop k (1 # replicate 119 (0::rat))))"
  have "map the (filter (\<lambda>x. x \<noteq> None) (rolling_sum 60 (1 # replicate 119 0)))
          = map ?g [0..<61]"
    using complete_windows[of 60 "1 # replicate 119 0"] by simp
  also have "\<dots> = ?g 0 # map (\<lambda>j. ?g (Suc j)) [0..<60]"
    using map_upt_Suc[of ?g 60] by simp
  also have "?g 0 = 1" by (simp add: sum_list_replicate)
  also have "map (\<lambda>j. ?g (Suc j)) [0..<60] = map (\<lambda>j. 0) [0..<60]"
    by (rule map_cong) (simp_all add: sum_list_replicate)
  also have "map (\<lambda>j. 0::rat) [0..<60] = replicate 60 0"
    by (simp add: map_replicate_const)
  finally show ?thesis .
qed

text \<open>
  C7, as the code has it. With non-zero closes, at least eleven candidates and positive
  last prices: every candidate gets the score \<open>avg_60 - last_30\<close>, where \<open>avg_60\<close> is the
  mean over all complete windows of 60 returns of the sum of the window (\<open>nan\<close> when
  there is none) and \<open>last_30\<close> is the sum of the last 30 returns; the ranking is a
  permutation of the scored candidates sorted by descending score; exactly two candidates
  are selected, those at ranking positions \<open>0\<close> and \<open>10\<close>; each is sized
  \<open>floor(500 / last_price)\<close>.
\<close>

theorem buy_strategy_selection:
  assumes nz: "\<forall>row \<in> set P. 0 \<notin> set (snd row)"
    and many: "11 \<le> length P"
    and quotes: "\<forall>row \<in> set P. 0 < regularMarketLastPrice (fst row)"
  shows "\<exists>scores ranking.
           estimate_30_day_return P = Inr scores
         \<and> map fst scores = map fst P
         \<and> (\<forall>i < length P. \<exists>dP.
               pct_change (snd (P ! i)) = Inr dP
             \<and> snd (scores ! i)
                 = nan_sub
                     (if length dP < 60 then None
                      else Some (sum_list (map (\<lambda>k. sum_list (take 60 (drop k dP)))
                                             [0..<length dP + 1 - 60])
                                 / of_nat (length dP + 1 - 60)))
                     (Some (sum_list (iloc_last 30 dP))))
         \<and> buy_ranking P = Inr ranking
         \<and> mset ranking = mset scores
         \<and> sorted_wrt (\<lambda>a b. ranks_before (snd a) (snd b)) ranking
         \<and> buy_orders regularMarketLastPrice P
             = Inr [(fst (ranking ! 0), \<lfloor>500 / regularMarketLastPrice (fst (ranking ! 0))\<rfloor>),
                    (fst (ranking ! 10), \<lfloor>500 / regularMarketLastPrice (fst (ranking ! 10))\<rfloor>)]"
proof -
  obtain scores where sc: "estimate_30_day_return P = Inr scores"
      "map fst scores = map fst P"
      "\<forall>i < length P. score (snd (P ! i)) = Inr (snd (scores ! i))"
    using estimate_nonzero[OF nz] by blast
  define ranking where "ranking = sort_values_descending scores"
  have each: "\<forall>i < length P. \<exists>dP.
               pct_change (snd (P ! i)) = Inr dP
             \<and> snd (scores ! i)
                 = nan_sub
                     (if length dP < 60 then None
                      else Some (sum_list (map (\<lambda>k. sum_list (take 60 (drop k dP)))
                                             [0..<length dP + 1 - 60])
                                 / of_nat (length dP + 1 - 60)))
                     (Some (sum_list (iloc_last 30 dP)))"
  proof (intro allI impI)
    fix i assume i: "i < length P"
    then have "0 \<notin> set (snd (P ! i))" using nz by simp
    then obtain dP where dP: "pct_change (snd (P ! i)) = Inr dP"
        "score (snd (P ! i)) = Inr (nan_sub (mean_skipna (rolling_sum 60 dP))
                                   (Some (sum_list (iloc_last 30 dP))))"
      using score_nonzero by blast
    have "snd (scores ! i) = nan_sub (mean_skipna (rolling_sum 60 dP))
                                   (Some (sum_list (iloc_last 30 dP)))"
      using sc(3) i dP(2) by simp
    then show "\<exists>dP. pct_change (snd (P ! i)) = Inr dP
             \<and> snd (scores ! i)
                 = nan_sub
                     (if length dP < 60 then None
                      else Some (sum_list (map (\<lambda>k. sum_list (take 60 (drop k dP)))
                                             [0..<length dP + 1 - 60])
                                 / of_nat (length dP + 1 - 60)))
                     (Some (sum_list (iloc_last 30 dP)))"
      using dP(1) by (simp add: mean_skipna_rolling_sum)
  qed
  have rk: "buy_ranking P = Inr ranking"
    by (simp add: buy_ranking_def sc(1) ranking_def)
  have ms: "mset ranking = mset scores"
    by (simp add: ranking_def mset_sort_values_descending)
  have so: "sorted_wrt (\<lambda>a b. ranks_before (snd a) (snd b)) ranking"
    by (simp add: ranking_def sorted_sort_values_descending)
  have "length scores = length P" using sc(2) by (metis length_map)
  then have len: "11 \<le> length ranking"
    using many by (simp add: ranking_def length_sort_values_descending)
  have len0: "0 < length ranking" using len by linarith
  have len10: "10 < length ranking" using len by linarith
  have sel: "take_positions [0, 10] ranking = Inr [ranking ! 0, ranking ! 10]"
    using len0 len10 by (simp add: take_positions_def)
  have "fst (ranking ! 0) \<in> fst ` set P"
    using len0 by (rule ranked_ticker[OF ms sc(2)])
  then have q0: "0 < regularMarketLastPrice (fst (ranking ! 0))" using quotes by auto
  have "fst (ranking ! 10) \<in> fst ` set P"
    using len10 by (rule ranked_ticker[OF ms sc(2)])
  then have q10: "0 < regularMarketLastPrice (fst (ranking ! 10))" using quotes by auto
  have bo: "buy_orders regularMarketLastPrice P
             = Inr [(fst (ranking ! 0), \<lfloor>500 / regularMarketLastPrice (fst (ranking ! 0))\<rfloor>),
                    (fst (ranking ! 10), \<lfloor>500 / regularMarketLastPrice (fst (ranking ! 10))\<rfloor>)]"
    using q0 q10 by (simp add: buy_orders_def rk sel Let_def py_int_def)
  show ?thesis using sc(1,2) each rk ms so bo by blast
qed

theorem buy_strategy_selection_witness:
  "length demo_candidates = 11 \<and> 0 \<notin> \<Union> (set (map (set \<circ> snd) demo_candidates))
   \<and> buy_orders (\<lambda>ticker. 100) demo_candidates
        = Inr [(fst (demo_ranking ! 0), 5), (fst (demo_ranking ! 10), 5)]"
proof -
  have h1: "\<forall>row \<in> set demo_candidates. 0 \<notin> set (snd row)"
    by (simp add: demo_candidates_def)
  have h2: "11 \<le> length demo_candidates" by (simp add: demo_candidates_def)
  have h3: "\<forall>row \<in> set demo_candidates. (0::rat) < (\<lambda>ticker. 100) (fst row)" by simp
  obtain ranking where r: "buy_ranking demo_candidates = Inr ranking"
      "buy_orders (\<lambda>ticker. 100) demo_candidates
         = Inr [(fst (ranking ! 0), \<lfloor>500 / (\<lambda>ticker. 100::rat) (fst (ranking ! 0))\<rfloor>),
                (fst (ranking ! 10), \<lfloor>500 / (\<lambda>ticker. 100::rat) (fst (ranking ! 10))\<rfloor>)]"
    using buy_strategy_selection[OF h1 h2 h3] by blast
  have "ranking = demo_ranking" using r(1) demo_ranking_eval by simp
  then have "buy_orders (\<lambda>ticker. 100) demo_candidates
        = Inr [(fst (demo_ranking ! 0), 5), (fst (demo_ranking ! 10), 5)]"
    using r(2) by simp
  moreover have "length demo_candidates = 11" by (simp add: demo_candidates_def)
  moreover have "0 \<notin> \<Union> (set (map (set \<circ> snd) demo_candidates))"
    using h1 by auto
  ultimately show ?thesis by (intro conjI)
qed

text \<open>
  C7, as the claim states it, fails on the eleven candidates: their ranking has the
  positions \<open>0\<close> to \<open>10\<close>, and the strategy sizes two tickers, not the eleven of the
  claimed slice. It also fails on the score: for the series that doubles on the first day
  the mean of all 61 rolling sums is \<open>1/61\<close>, while the mean of the last 60 of them, the
  trailing mean of the claim, is \<open>0\<close>.
\<close>

theorem buy_strategy_not_top_eleven:
  "buy_ranking demo_candidates = Inr demo_ranking
   \<and> buy_orders (\<lambda>ticker. 100) demo_candidates = Inr [(''K10'', 5), (''K00'', 5)]
   \<and> map fst [(''K10'', 5::int), (''K00'', 5)] \<noteq> map fst (claimed_top_slice demo_ranking)
   \<and> pct_change demo_closes = Inr (1 # replicate 119 0)
   \<and> mean_skipna (rolling_sum 60 (1 # replicate 119 0)) = Some (1 / 61)
   \<and> claimed_trailing_mean (rolling_sum 60 (1 # replicate 119 0)) = Some 0"
proof -
  have c: "map fst [(''K10'', 5::int), (''K00'', 5)] \<noteq> map fst (claimed_top_slice demo_ranking)"
    by (simp add: claimed_top_slice_def demo_ranking_def)
  have d: "pct_change demo_closes = Inr (1 # replicate 119 0)"
    using pct_change_jump[of 1 2 119] by (simp add: demo_closes_def)
  have e: "mean_skipna (rolling_sum 60 (1 # replicate 119 0)) = Some (1 / 61)"
    unfolding mean_skipna_def demo_window_sums
    by (simp add: mean_def sum_list_replicate)
  have f: "claimed_trailing_mean (rolling_sum 60 (1 # replicate 119 0)) = Some 0"
    unfolding claimed_trailing_mean_def demo_window_sums
    by (simp add: mean_def iloc_last_def sum_list_replicate)
  show ?thesis using demo_ranking_eval demo_orders_eval c d e f by (intro conjI)
qed

section \<open>Normalised loadings\<close>

lemma column_apply_columns:
  assumes "k < width" and "\<And>x. length (f x) = length x"
  shows "column k (apply_columns f width rows) = f (column k rows)"
proof (rule nth_equalityI)
  show "length (column k (apply_columns f width rows)) = length (f (column k rows))"
    using assms(2) by (simp add: column_def apply_columns_def)
next
  fix i assume "i < length (column k (apply_columns f width rows))"
  then have i: "i < length rows" by (simp add: column_def apply_columns_def)
  then show "column k (apply_columns f width rows) ! i = f (column k rows) ! i"
    using assms(1) by (simp add: column_def apply_columns_def)
qed

lemma length_unit_scale: "length (unit_scale x) = length x"
  by (simp add: unit_scale_def)

lemma sum_list_scaled_squares:
  fixes c :: real
  shows "sum_list (map (\<lambda>v. (v / c)\<^sup>2) x) = sum_list (map (\<lambda>v. v\<^sup>2) x) / c\<^sup>2"
  by (induction x) (simp_all add: power_divide add_divide_distrib)

lemma dot_self: "dot x x = sum_list (map (\<lambda>v. v\<^sup>2) x)"
  by (induction x) (simp_all add: dot_def power2_eq_square)

lemma dot_self_nonneg: "0 \<le> dot x x"
  unfolding dot_self by (induction x) simp_all

lemma l2_norm_unit_scale:
  assumes "dot x x \<noteq> 0"
  shows "l2_norm (unit_scale x) = Some 1"
proof -
  have pos: "0 < dot x x" using assms dot_self_nonneg[of x] by simp
  have "sum_list (map (\<lambda>v. (the v)\<^sup>2) (map (\<lambda>v. Some (v / sqrt (dot x x))) x))
          = sum_list (map (\<lambda>v. (v / sqrt (dot x x))\<^sup>2) x)"
    by (simp add: comp_def)
  also have "\<dots> = sum_list (map (\<lambda>v. v\<^sup>2) x) / (sqrt (dot x x))\<^sup>2"
    by (rule sum_list_scaled_squares)
  also have "\<dots> = 1" using pos by (simp add: dot_self)
  finally show ?thesis using assms by (auto simp: l2_norm_def unit_scale_def)
qed

lemma demo_standardize:
  "None \<notin> set (map (\<lambda>(ticker, x). standardize x) demo_price_table)"
  by (auto simp: demo_price_table_def standardize_def series_std_def series_mean_def)

lemma demo_pca_run:
  "pca_analysis demo_pca demo_price_table
     = Inr \<lparr>res_norm_loadings = norm_loadings (map (map (\<lambda>v. v / sqrt 2)) demo_loadings),
            res_projections =
              map (\<lambda>k. map (\<lambda>(ticker, x).
                     nan_dot (column k (norm_loadings (map (map (\<lambda>v. v / sqrt 2)) demo_loadings))) x)
                   demo_price_table) [0..<4]\<rparr>"
proof -
  have shape: "length (map (map (\<lambda>v. v / sqrt 2)) demo_loadings) = length (snd (hd demo_price_table))"
      "\<forall>row \<in> set (map (map (\<lambda>v. v / sqrt 2)) demo_loadings). length row = 4"
    by (simp_all add: demo_loadings_def demo_price_table_def)
  have ne: "demo_price_table \<noteq> []" by (simp add: demo_price_table_def)
  show ?thesis
    unfolding pca_analysis_def Let_def demo_pca_def
    using demo_standardize shape ne by (simp del: set_map list.map)
qed

lemma pca_analysis_norm_loadings:
  assumes "pca_analysis pca prices = Inr res"
  shows "\<exists>X loadings. pca X = Inr loadings \<and> res_norm_loadings res = norm_loadings loadings"
  using assms
  by (fastforce simp: pca_analysis_def Let_def bind_err_def split: if_splits sum.splits)

lemma unit_scale_has_number:
  assumes "Some v \<in> set (unit_scale x)"
  shows "dot x x \<noteq> 0"
  using assms by (auto simp: unit_scale_def split: if_splits)

lemma demo_norm_loadings_first_column:
  "column 0 (norm_loadings (map (map (\<lambda>v. v / sqrt 2)) demo_loadings))
     = map (\<lambda>v. Some (v / sqrt 2 / sqrt 10)) [1, 1, 0, 1, 1, - 4]"
proof -
  have "column 0 (norm_loadings (map (map (\<lambda>v. v / sqrt 2)) demo_loadings))
          = unit_scale (column 0 (map (map (\<lambda>v. v / sqrt 2)) demo_loadings))"
    unfolding norm_loadings_def using length_unit_scale by (intro column_apply_columns) simp_all
  also have "column 0 (map (map (\<lambda>v. v / sqrt 2)) demo_loadings)
          = map (\<lambda>v. v / sqrt 2) [1, 1, 0, 1, 1, - 4]"
    by (simp add: column_def demo_loadings_def)
  also have "unit_scale (map (\<lambda>v. v / sqrt 2) [1, 1, 0, 1, 1, - 4])
          = map (\<lambda>v. Some (v / sqrt 2 / sqrt 10)) [1, 1, 0, 1, 1, - 4]"
    by (simp add: unit_scale_def dot_def)
  finally show ?thesis .
qed

text \<open>
  C6, as the code has it. \<open>apply\<close> normalises the columns of the loadings, not the rows:
  whenever \<open>pca_analysis\<close> returns, every column of \<open>norm_loadings\<close> that holds a number
  (the scores of one component over all dates, not all zero) has L2 norm \<open>1\<close>.
\<close>

theorem norm_loadings_column_unit:
  assumes "pca_analysis pca prices = Inr res" and "k < 4"
    and "Some v \<in> set (column k (res_norm_loadings res))"
  shows "l2_norm (column k (res_norm_loadings res)) = Some 1"
proof -
  obtain X loadings where l: "pca X = Inr loadings"
      "res_norm_loadings res = norm_loadings loadings"
    using pca_analysis_norm_loadings[OF assms(1)] by blast
  have col: "column k (res_norm_loadings res) = unit_scale (column k loadings)"
    unfolding l(2) norm_loadings_def
    using assms(2) length_unit_scale by (rule column_apply_columns)
  then have "dot (column k loadings) (column k loadings) \<noteq> 0"
    using assms(3) unit_scale_has_number by simp
  then show ?thesis unfolding col by (rule l2_norm_unit_scale)
qed

theorem norm_loadings_column_unit_witness:
  "pca_analysis demo_pca demo_price_table = Inr demo_result \<and> (0::nat) < 4
   \<and> Some (1 / sqrt 2 / sqrt 10) \<in> set (column 0 (res_norm_loadings demo_result))
   \<and> l2_norm (column 0 (res_norm_loadings demo_result)) = Some 1"
proof -
  have run: "pca_analysis demo_pca demo_price_table = Inr demo_result"
    using demo_pca_run by (simp add: demo_result_def)
  have k: "(0::nat) < 4" by simp
  have v: "Some (1 / sqrt 2 / sqrt 10) \<in> set (column 0 (res_norm_loadings demo_result))"
    by (simp add: demo_result_def demo_norm_loadings_first_column)
  show ?thesis using run k v norm_loadings_column_unit[OF run k v] by (intro conjI)
qed

text \<open>
  C6, as the claim states it, fails on the example: the table has no constant column and
  is accepted, and the row of the third date in \<open>norm_loadings\<close> is zero, of norm \<open>0\<close>
  and not \<open>1\<close> within \<open>1e-9\<close>.
\<close>

theorem norm_loadings_row_not_unit:
  "pca_analysis demo_pca demo_price_table = Inr demo_result
   \<and> res_norm_loadings demo_result ! 2 = [Some 0, Some 0, Some 0, Some 0]
   \<and> l2_norm (res_norm_loadings demo_result ! 2) = Some 0
   \<and> \<not> claimed_unit_row (1 / 10 ^ 9) (res_norm_loadings demo_result ! 2)"
proof -
  have run: "pca_analysis demo_pca demo_price_table = Inr demo_result"
    using demo_pca_run by (simp add: demo_result_def)
  have row: "res_norm_loadings demo_result ! 2 = [Some 0, Some 0, Some 0, Some 0]"
    by (simp add: demo_result_def norm_loadings_def apply_columns_def demo_loadings_def
        column_def unit_scale_def dot_def upt_rec)
  have "l2_norm [Some 0, Some 0, Some 0, Some 0] = Some 0" by (simp add: l2_norm_def)
  then show ?thesis using run row by (simp add: claimed_unit_row_def)
qed

text \<open>
  The failure does not depend on the scores that the decomposition returns. The squared
  entries of \<open>norm_loadings\<close> sum to \<open>4\<close>, one for each column, so the rows can all have
  norm \<open>1\<close> within \<open>1e-9\<close> only if the table has exactly four dates.
\<close>

lemma dot_column:
  "dot (column k L) (column k L) = (\<Sum>i = 0..<length L. (L ! i ! k)\<^sup>2)"
proof -
  have "dot (column k L) (column k L) = sum_list (map (\<lambda>r. (r ! k)\<^sup>2) L)"
    by (simp add: dot_self column_def comp_def)
  also have "\<dots> = (\<Sum>i = 0..<length L. (L ! i ! k)\<^sup>2)"
    by (simp add: sum_list_sum_nth)
  finally show ?thesis .
qed

lemma norm_loadings_row:
  assumes "i < length L" and "\<forall>k<4. dot (column k L) (column k L) \<noteq> 0"
  shows "norm_loadings L ! i
           = map (\<lambda>k. Some (L ! i ! k / sqrt (dot (column k L) (column k L)))) [0..<4]"
  using assms by (simp add: norm_loadings_def apply_columns_def unit_scale_def column_def)

lemma l2_norm_row:
  assumes "i < length L" and "\<forall>k<4. dot (column k L) (column k L) \<noteq> 0"
  shows "l2_norm (norm_loadings L ! i)
           = Some (sqrt (\<Sum>k = 0..<4. (L ! i ! k)\<^sup>2 / dot (column k L) (column k L)))"
proof -
  have "\<And>k. (L ! i ! k / sqrt (dot (column k L) (column k L)))\<^sup>2
            = (L ! i ! k)\<^sup>2 / dot (column k L) (column k L)"
    by (simp add: power_divide dot_self_nonneg)
  then have "sum_list (map (\<lambda>v. (the v)\<^sup>2) (norm_loadings L ! i))
          = sum_list (map (\<lambda>k. (L ! i ! k)\<^sup>2 / dot (column k L) (column k L)) [0..<4])"
    unfolding norm_loadings_row[OF assms] by (simp add: comp_def)
  also have "\<dots> = (\<Sum>k = 0..<4. (L ! i ! k)\<^sup>2 / dot (column k L) (column k L))"
    by (simp add: sum_list_sum_nth)
  finally have "sum_list (map (\<lambda>v. (the v)\<^sup>2) (norm_loadings L ! i))
          = (\<Sum>k = 0..<4. (L ! i ! k)\<^sup>2 / dot (column k L) (column k L))" .
  moreover have "None \<notin> set (norm_loadings L ! i)"
    unfolding norm_loadings_row[OF assms] by auto
  ultimately show ?thesis by (simp add: l2_norm_def)
qed

lemma squared_row_norms_sum:
  assumes "\<forall>k<4. dot (column k L) (column k L) \<noteq> 0"
  shows "(\<Sum>i = 0..<length L. \<Sum>k = 0..<4. (L ! i ! k)\<^sup>2 / dot (column k L) (column k L)) = 4"
proof -
  have "(\<Sum>i = 0..<length L. \<Sum>k = 0..<4. (L ! i ! k)\<^sup>2 / dot (column k L) (column k L))
          = (\<Sum>k = 0..<4. \<Sum>i = 0..<length L. (L ! i ! k)\<^sup>2 / dot (column k L) (column k L))"
    by (rule sum.swap)
  also have "\<dots> = (\<Sum>k = 0..<4. (\<Sum>i = 0..<length L. (L ! i ! k)\<^sup>2) / dot (column k L) (column k L))"
    by (simp add: sum_divide_distrib)
  also have "\<dots> = (\<Sum>k = 0..<(4::nat). (1::real))"
    using assms by (intro sum.cong) (simp_all add: dot_column[symmetric])
  also have "\<dots> = 4" by simp
  finally show ?thesis .
qed

lemma unit_rows_need_four_dates:
  assumes nondeg: "\<forall>k<4. dot (column k L) (column k L) \<noteq> 0"
    and rows: "\<forall>i < length L. \<exists>n. l2_norm (norm_loadings L ! i) = Some n
                 \<and> \<bar>n - 1\<bar> \<le> 1 / 10 ^ 9"
  shows "length L = 4"
proof -
  let ?q = "\<lambda>i. \<Sum>k = 0..<4. (L ! i ! k)\<^sup>2 / dot (column k L) (column k L)"
  define e :: real where "e = 1 / 10 ^ 9"
  have e: "0 < e" "e < 1 / 10" by (simp_all add: e_def)
  have lo_sq: "81 / 100 < (1 - e)\<^sup>2"
  proof -
    have "(9 / 10)\<^sup>2 < (1 - e)\<^sup>2" using e by (intro power_strict_mono) simp_all
    then show ?thesis by (simp add: power2_eq_square)
  qed
  have up_sq: "(1 + e)\<^sup>2 < 121 / 100"
  proof -
    have "(1 + e)\<^sup>2 < (11 / 10)\<^sup>2" using e by (intro power_strict_mono) simp_all
    then show ?thesis by (simp add: power2_eq_square)
  qed
  have q_nn: "\<And>i. 0 \<le> ?q i"
    by (intro sum_nonneg divide_nonneg_nonneg dot_self_nonneg) simp
  have bounds: "(1 - e)\<^sup>2 \<le> ?q i \<and> ?q i \<le> (1 + e)\<^sup>2" if i: "i < length L" for i
  proof -
    obtain n where n: "l2_norm (norm_loadings L ! i) = Some n" "\<bar>n - 1\<bar> \<le> e"
      using rows i unfolding e_def by blast
    have nq: "n = sqrt (?q i)" using n(1) l2_norm_row[OF i nondeg] by simp
    have "1 - e \<le> n" "n \<le> 1 + e" using n(2) by linarith+
    moreover have "0 \<le> 1 - e" using e by simp
    moreover have "0 \<le> n" using nq q_nn[of i] by simp
    ultimately have "(1 - e)\<^sup>2 \<le> n\<^sup>2" "n\<^sup>2 \<le> (1 + e)\<^sup>2"
      by (simp_all add: power_mono)
    moreover have "n\<^sup>2 = ?q i" using nq q_nn[of i] by simp
    ultimately show ?thesis by simp
  qed
  have lower: "of_nat (length L) * (1 - e)\<^sup>2 \<le> (\<Sum>i = 0..<length L. ?q i)"
    using sum_bounded_below[of "{0..<length L}" "(1 - e)\<^sup>2" ?q] bounds by simp
  have upper: "(\<Sum>i = 0..<length L. ?q i) \<le> of_nat (length L) * (1 + e)\<^sup>2"
    using sum_bounded_above[of "{0..<length L}" ?q "(1 + e)\<^sup>2"] bounds by simp
  have total: "(\<Sum>i = 0..<length L. ?q i) = 4" using nondeg by (rule squared_row_norms_sum)
  have lo: "real (length L) * (1 - e)\<^sup>2 \<le> 4" using lower total by simp
  have up: "4 \<le> real (length L) * (1 + e)\<^sup>2" using upper total by simp
  have "length L < 5"
  proof (rule ccontr)
    assume "\<not> length L < 5"
    then have "5 \<le> real (length L)" by simp
    then have "5 * (1 - e)\<^sup>2 \<le> real (length L) * (1 - e)\<^sup>2"
      by (intro mult_right_mono) simp_all
    then show False using lo lo_sq by linarith
  qed
  moreover have "3 < length L"
  proof (rule ccontr)
    assume "\<not> 3 < length L"
    then have "real (length L) \<le> 3" by simp
    then have "real (length L) * (1 + e)\<^sup>2 \<le> 3 * (1 + e)\<^sup>2"
      by (intro mult_right_mono) simp_all
    then show False using up up_sq by linarith
  qed
  ultimately show ?thesis by simp
qed

lemma pca_analysis_shape:
  assumes "pca_analysis pca prices = Inr res"
  shows "\<exists>loadings. res_norm_loadings res = norm_loadings loadings
           \<and> length loadings = length (snd (hd prices))
           \<and> 2 \<le> length (snd (hd prices))"
proof -
  have ne: "prices \<noteq> []" and X: "None \<notin> set (map (\<lambda>(ticker, x). standardize x) prices)"
    using assms by (auto simp: pca_analysis_def Let_def split: if_splits)
  obtain ticker x rest where p: "prices = (ticker, x) # rest"
    using ne by (cases prices) auto
  have "standardize x \<noteq> None" using X p by auto
  then have two: "2 \<le> length (snd (hd prices))"
    using p by (auto simp: standardize_def split: if_splits)
  have "\<exists>loadings. res_norm_loadings res = norm_loadings loadings
           \<and> length loadings = length (snd (hd prices))"
    using assms
    by (fastforce simp: pca_analysis_def Let_def bind_err_def split: if_splits sum.splits)
  then show ?thesis using two by blast
qed

lemma length_norm_loadings: "length (norm_loadings L) = length L"
  by (simp add: norm_loadings_def apply_columns_def)

lemma zero_column_row:
  assumes "i < length L" and "k < 4" and "dot (column k L) (column k L) = 0"
  shows "l2_norm (norm_loadings L ! i) = None"
proof -
  have "unit_scale (column k L) ! i = None"
    using assms(1,3) by (simp add: unit_scale_def column_def)
  then have "norm_loadings L ! i ! k = None"
    using assms(1,2) by (simp add: norm_loadings_def apply_columns_def)
  moreover have "k < length (norm_loadings L ! i)"
    using assms(1,2) by (simp add: norm_loadings_def apply_columns_def)
  ultimately have "None \<in> set (norm_loadings L ! i)" by (metis nth_mem)
  then show ?thesis by (simp add: l2_norm_def)
qed

text \<open>
  Hence, with any decomposition in place of \<open>pca\<close>: whenever \<open>pca_analysis\<close> returns on
  a table that does not have exactly four dates, some row of \<open>norm_loadings\<close> is not of
  norm \<open>1\<close> within \<open>1e-9\<close>.
\<close>

lemma rows_not_all_unit:
  assumes "pca_analysis pca prices = Inr res" and "length (snd (hd prices)) \<noteq> 4"
  shows "\<exists>row \<in> set (res_norm_loadings res). \<not> claimed_unit_row (1 / 10 ^ 9) row"
proof -
  obtain L where L: "res_norm_loadings res = norm_loadings L"
      "length L = length (snd (hd prices))" "2 \<le> length (snd (hd prices))"
    using pca_analysis_shape[OF assms(1)] by blast
  have "\<exists>i < length L. \<not> claimed_unit_row (1 / 10 ^ 9) (norm_loadings L ! i)"
  proof (cases "\<forall>k<4. dot (column k L) (column k L) \<noteq> 0")
    case True
    show ?thesis
    proof (rule ccontr)
      assume "\<not> ?thesis"
      then have "\<forall>i < length L. \<exists>n. l2_norm (norm_loadings L ! i) = Some n
                   \<and> \<bar>n - 1\<bar> \<le> 1 / 10 ^ 9"
        by (auto simp: claimed_unit_row_def split: option.splits)
      with True have "length L = 4" by (rule unit_rows_need_four_dates)
      then show False using L(2) assms(2) by simp
    qed
  next
    case False
    then obtain k where k: "k < 4" "dot (column k L) (column k L) = 0" by blast
    have "0 < length L" using L(2,3) by linarith
    moreover from this have "l2_norm (norm_loadings L ! 0) = None"
      using k by (rule zero_column_row)
    ultimately show ?thesis by (auto simp: claimed_unit_row_def)
  qed
  then obtain i where i: "i < length L" "\<not> claimed_unit_row (1 / 10 ^ 9) (norm_loadings L ! i)"
    by blast
  have "norm_loadings L ! i \<in> set (norm_loadings L)"
    using i(1) by (simp add: length_norm_loadings)
  then show ?thesis using i(2) L(1) by auto
qed

lemma rows_not_all_unit_example:
  "length (snd (hd demo_price_table)) \<noteq> 4
   \<and> (\<exists>row \<in> set (res_norm_loadings demo_result). \<not> claimed_unit_row (1 / 10 ^ 9) row)"
proof -
  have run: "pca_analysis demo_pca demo_price_table = Inr demo_result"
    using demo_pca_run by (simp add: demo_result_def)
  have six: "length (snd (hd demo_price_table)) \<noteq> 4" by (simp add: demo_price_table_def)
  show ?thesis using six rows_not_all_unit[OF run six] by blast
qed

end
